theory Spec2Isabelle
  imports Main "HOL-Library.Sublist"
begin

section \<open>Python strings as sequences of code points\<close>

text \<open>
  The program under study is \<^verbatim>\<open>summarize_with_gemini\<close> of \<^verbatim>\<open>app.py\<close>: it sends a
  prompt to a text generator and interprets the free-text answer line by line. A Python
  \<^verbatim>\<open>str\<close> is a sequence of Unicode code points, and the markers the interpreter looks
  for are Hangul, so a string is modelled as a list of code points (natural numbers),
  not as a list of 8-bit characters.
\<close>

type_synonym pystr = "nat list"

text \<open>
  \<^verbatim>\<open>str.strip()\<close> without argument removes leading and trailing white space; the
  code points below are exactly those for which CPython's \<^verbatim>\<open>str.isspace\<close> holds
  (U+0009..U+000D, U+001C..U+0020, U+0085, U+00A0, U+1680, U+2000..U+200A, U+2028, U+2029,
  U+202F, U+205F, U+3000).
\<close>

definition is_space :: "nat \<Rightarrow> bool" where
  "is_space c \<longleftrightarrow>
     (9 \<le> c \<and> c \<le> 13) \<or> (28 \<le> c \<and> c \<le> 32) \<or> c = 133 \<or> c = 160 \<or> c = 5760 \<or>
     (8192 \<le> c \<and> c \<le> 8202) \<or> c = 8232 \<or> c = 8233 \<or> c = 8239 \<or> c = 8287 \<or> c = 12288"

definition strip :: "pystr \<Rightarrow> pystr" where
  "strip s = rev (dropWhile is_space (rev (dropWhile is_space s)))"

text \<open>\<^verbatim>\<open>s.startswith(p)\<close>.\<close>

definition startswith :: "pystr \<Rightarrow> pystr \<Rightarrow> bool" where
  "startswith s p = prefix p s"

text \<open>\<^verbatim>\<open>sub in s\<close>: \<open>sub\<close> occurs in \<open>s\<close> as a contiguous block.\<close>

fun py_in :: "pystr \<Rightarrow> pystr \<Rightarrow> bool" where
  "py_in sub [] = (sub = [])"
| "py_in sub (c # cs) = (prefix sub (c # cs) \<or> py_in sub cs)"

text \<open>
  \<^verbatim>\<open>s.split(sep)\<close> for a non-empty separator: the text is scanned from the left and cut
  at every occurrence of \<open>sep\<close>, the scan resuming after the occurrence. Python raises
  \<^verbatim>\<open>ValueError\<close> for an empty separator; every call of the program passes a non-empty
  literal, and the model then simply never cuts.
\<close>

function split_str :: "pystr \<Rightarrow> pystr \<Rightarrow> pystr list" where
  "split_str sep [] = [[]]"
| "split_str sep (c # cs) =
     (if sep \<noteq> [] \<and> prefix sep (c # cs)
      then [] # split_str sep (drop (length sep) (c # cs))
      else (let r = split_str sep cs in (c # hd r) # tl r))"
  by pat_completeness auto
termination
  by (relation "measure (\<lambda>(sep, s). length s)") (auto simp: neq_Nil_conv)

text \<open>\<^verbatim>\<open>'\n'.join(xs)\<close>.\<close>

fun join_nl :: "pystr list \<Rightarrow> pystr" where
  "join_nl [] = []"
| "join_nl [x] = x"
| "join_nl (x # y # ys) = x @ [10] @ join_nl (y # ys)"

text \<open>
  \<^verbatim>\<open>s.rfind(sub)\<close>: the highest index at which \<open>sub\<close> occurs in \<open>s\<close>, or \<open>-1\<close>
  when it does not occur. \<open>rfind_from sub s i acc\<close> walks \<open>s\<close> (whose first code point
  has index \<open>i\<close>) and keeps in \<open>acc\<close> the latest index seen so far.
\<close>

fun rfind_from :: "pystr \<Rightarrow> pystr \<Rightarrow> int \<Rightarrow> int \<Rightarrow> int" where
  "rfind_from sub [] i acc = (if sub = [] then i else acc)"
| "rfind_from sub (c # cs) i acc =
     rfind_from sub cs (i + 1) (if prefix sub (c # cs) then i else acc)"

definition rfind :: "pystr \<Rightarrow> pystr \<Rightarrow> int" where
  "rfind s sub = rfind_from sub s 0 (- 1)"

text \<open>
  \<^verbatim>\<open>s.lower()\<close>. The program uses the lowered line for one thing only, the test
  \<^verbatim>\<open>'sentiment' in line_lower\<close>. Lowering maps A..Z to a..z; the only other code points
  whose lowered form holds an ASCII letter are U+212A (to \<open>k\<close>) and U+0130 (to \<open>i\<close>
  followed by U+0307), neither of which can take part in an occurrence of that word. So
  the test has the same outcome when only A..Z are lowered and every other code point is
  kept, which is what the model does.
\<close>

definition lower_cp :: "nat \<Rightarrow> nat" where
  "lower_cp c = (if 65 \<le> c \<and> c \<le> 90 then c + 32 else c)"

definition lower :: "pystr \<Rightarrow> pystr" where
  "lower s = map lower_cp s"

section \<open>The literals of the interpreter\<close>

definition title_marker :: pystr where  \<comment> \<open>the title label followed by a colon\<close>
  "title_marker = [54620, 44397, 50612, 32, 51228, 47785, 58]"

definition summary_marker :: pystr where  \<comment> \<open>the three-line-summary label followed by a colon\<close>
  "summary_marker = [51, 51460, 32, 50836, 50557, 58]"

definition quotes_marker :: pystr where  \<comment> \<open>the key-sentences label followed by a colon\<close>
  "quotes_marker = [54645, 49900, 32, 47928, 51109, 58]"

definition sentiment_marker :: pystr where  \<comment> \<open>the sentiment-analysis label, two words\<close>
  "sentiment_marker = [44048, 49457, 32, 48516, 49437]"

definition sentiment_marker_joined :: pystr where  \<comment> \<open>the same label written as one word\<close>
  "sentiment_marker_joined = [44048, 49457, 48516, 49437]"

definition sentiment_stem :: pystr where  \<comment> \<open>the first word of the label alone\<close>
  "sentiment_stem = [44048, 49457]"

definition sentiment_word :: pystr where  \<comment> \<open>the ASCII word \<^verbatim>\<open>sentiment\<close>\<close>
  "sentiment_word = [115, 101, 110, 116, 105, 109, 101, 110, 116]"

definition positive :: pystr where  \<comment> \<open>U+D638 U+C7AC, the favourable label\<close>
  "positive = [54840, 51116]"

definition negative :: pystr where  \<comment> \<open>U+C545 U+C7AC, the unfavourable label\<close>
  "negative = [50501, 51116]"

definition neutral :: pystr where  \<comment> \<open>U+C911 U+B9BD, the neutral label\<close>
  "neutral = [51473, 47549]"

definition colon :: pystr where
  "colon = [58]"

definition newline :: pystr where
  "newline = [10]"

definition bullet :: pystr where  \<comment> \<open>U+2022\<close>
  "bullet = [8226]"

definition dash :: pystr where
  "dash = [45]"

definition gt_sign :: pystr where
  "gt_sign = [62]"

definition dquote :: pystr where
  "dquote = [34]"

definition failure_prefix :: pystr where  \<comment> \<open>warning sign, then "summary generation failed: "\<close>
  "failure_prefix =
     [9888, 65039, 32, 50836, 50557, 32, 49373, 49457, 32, 49892, 54056, 58, 32]"

section \<open>The interpreter\<close>

text \<open>The four locals the scan of the lines assigns.\<close>

record parse_state =
  ps_title :: pystr
  ps_summary :: pystr
  ps_quotes :: pystr
  ps_sentiment :: pystr

text \<open>
  The dictionary the function returns. The one built after a failure has no
  \<^verbatim>\<open>key_quotes\<close> entry, hence the option.
\<close>

record summary_result =
  korean_title :: pystr
  summary :: pystr
  key_quotes :: "pystr option"
  sentiment :: pystr
  raw_response :: pystr

text \<open>\<^verbatim>\<open>lines = response_text.strip().split('\n')\<close>\<close>

definition lines_of :: "pystr \<Rightarrow> pystr list" where
  "lines_of response_text = split_str newline (strip response_text)"

text \<open>
  The lines an inner loop visits, \<^verbatim>\<open>lines[j] for j in range(i+1, min(i+4, len(lines)))\<close>;
  every index read is below the length.
\<close>

definition lookahead :: "pystr list \<Rightarrow> nat \<Rightarrow> pystr list" where
  "lookahead lines i = map (\<lambda>j. lines ! j) [i + 1 ..< min (i + 4) (length lines)]"

text \<open>The inner loop of the summary branch: it appends the stripped bullet lines.\<close>

fun collect_bullets :: "pystr list \<Rightarrow> pystr list" where
  "collect_bullets [] = []"
| "collect_bullets (l # ls) =
     (if startswith (strip l) bullet \<or> startswith (strip l) dash
      then strip l # collect_bullets ls
      else collect_bullets ls)"

text \<open>
  The inner loop of the quotes branch: it appends the stripped quote lines and leaves
  the loop at a line that is no quote line and holds the sentiment label. The source
  tests for the double quote twice.
\<close>

fun collect_quotes :: "pystr list \<Rightarrow> pystr list" where
  "collect_quotes [] = []"
| "collect_quotes (l # ls) =
     (let stripped = strip l in
      if startswith stripped gt_sign \<or> startswith stripped dquote \<or> startswith stripped dquote
      then stripped # collect_quotes ls
      else if py_in sentiment_marker stripped then []
      else collect_quotes ls)"

text \<open>The text the sentiment branch classifies, and its classification.\<close>

definition sentiment_text :: "pystr \<Rightarrow> pystr" where
  "sentiment_text line =
     (if py_in colon line then strip (last (split_str colon line)) else line)"

definition classify :: "pystr \<Rightarrow> pystr" where
  "classify t =
     (if py_in positive t then positive
      else if py_in negative t then negative
      else neutral)"

text \<open>One pass of the body of \<^verbatim>\<open>for i, line in enumerate(lines)\<close>.\<close>

definition scan_line :: "pystr \<Rightarrow> pystr list \<Rightarrow> parse_state \<Rightarrow> nat \<Rightarrow> parse_state" where
  "scan_line response_text lines st i =
     (let line = lines ! i in
      if py_in title_marker line
      then st\<lparr>ps_title := strip (last (split_str title_marker line))\<rparr>
      else if py_in summary_marker line
      then (let summary_lines = collect_bullets (lookahead lines i)
            in st\<lparr>ps_summary :=
                 (if summary_lines \<noteq> [] then join_nl summary_lines else response_text)\<rparr>)
      else if py_in quotes_marker line
      then (let quote_lines = collect_quotes (lookahead lines i)
            in st\<lparr>ps_quotes := (if quote_lines \<noteq> [] then join_nl quote_lines else [])\<rparr>)
      else if py_in sentiment_marker line \<or> py_in sentiment_marker_joined line
      then st\<lparr>ps_sentiment := classify (sentiment_text line)\<rparr>
      else st)"

definition scan_lines :: "pystr \<Rightarrow> pystr list \<Rightarrow> pystr \<Rightarrow> parse_state" where
  "scan_lines response_text lines news_title =
     foldl (scan_line response_text lines)
       \<lparr>ps_title = news_title, ps_summary = [], ps_quotes = [], ps_sentiment = neutral\<rparr>
       [0 ..< length lines]"

text \<open>
  The second tier: the first line that mentions sentiment and holds a label decides;
  \<open>rescan ls s\<close> is the value of \<^verbatim>\<open>sentiment\<close> after the loop over \<open>ls\<close> entered
  with \<^verbatim>\<open>sentiment = s\<close>.
\<close>

fun rescan :: "pystr list \<Rightarrow> pystr \<Rightarrow> pystr" where
  "rescan [] s = s"
| "rescan (line # ls) s =
     (let line_lower = lower line in
      if py_in sentiment_stem line \<or> py_in sentiment_word line_lower
      then (if py_in positive line then positive
            else if py_in negative line then negative
            else rescan ls s)
      else rescan ls s)"

text \<open>The third tier: the label mentioned last in the whole response.\<close>

definition last_mention :: "pystr \<Rightarrow> pystr \<Rightarrow> pystr" where
  "last_mention response_text s =
     (let last_positive = rfind response_text positive;
          last_negative = rfind response_text negative
      in if last_positive > last_negative \<and> last_positive \<noteq> - 1 then positive
         else if last_negative > last_positive \<and> last_negative \<noteq> - 1 then negative
         else s)"

definition resolve_sentiment :: "pystr \<Rightarrow> pystr list \<Rightarrow> pystr \<Rightarrow> pystr" where
  "resolve_sentiment response_text lines s =
     (if s = neutral
      then (let s' = rescan lines s
            in if s' = neutral then last_mention response_text s' else s')
      else s)"

text \<open>Everything between the call of the generator and the \<^verbatim>\<open>return\<close> of the dictionary.\<close>

definition interpret_response :: "pystr \<Rightarrow> pystr \<Rightarrow> summary_result" where
  "interpret_response response_text news_title =
     (let lines = lines_of response_text;
          st = scan_lines response_text lines news_title;
          summary' = (if ps_summary st = [] then response_text else ps_summary st);
          sentiment' = resolve_sentiment response_text lines (ps_sentiment st)
      in \<lparr>korean_title = ps_title st, summary = summary', key_quotes = Some (ps_quotes st),
          sentiment = sentiment', raw_response = response_text\<rparr>)"

text \<open>
  The whole function. The generator is outside the program, so its outcome is an input:
  \<open>Inl msg\<close> when the \<^verbatim>\<open>try\<close> block raises an exception \<open>e\<close> with \<^verbatim>\<open>str(e) = msg\<close>,
  \<open>Inr response_text\<close> when \<^verbatim>\<open>response.text\<close> is delivered. Nothing between that point
  and the \<^verbatim>\<open>return\<close> can raise: every index read is guarded by the range of its loop
  and \<^verbatim>\<open>split\<close> never yields an empty list.
\<close>

definition summarize_with_gemini :: "pystr + pystr \<Rightarrow> pystr \<Rightarrow> summary_result" where
  "summarize_with_gemini outcome news_title =
     (case outcome of
        Inl msg \<Rightarrow>
          \<lparr>korean_title = news_title, summary = failure_prefix @ msg, key_quotes = None,
           sentiment = neutral, raw_response = []\<rparr>
      | Inr response_text \<Rightarrow> interpret_response response_text news_title)"

section \<open>Notions used to state the properties\<close>

text \<open>\<open>sub\<close> occurs in \<open>s\<close> at index \<open>i\<close> (counted from 0, as Python does).\<close>

definition occurs_at :: "pystr \<Rightarrow> pystr \<Rightarrow> nat \<Rightarrow> bool" where
  "occurs_at sub s i \<longleftrightarrow> prefix sub (drop i s)"

text \<open>
  The branch of the \<^verbatim>\<open>if\<close>/\<^verbatim>\<open>elif\<close> chain a line takes. The chain tests the title
  marker first, so a line is handled as a summary line only when it is no title line, and
  so on down the chain.
\<close>

definition is_title_line :: "pystr \<Rightarrow> bool" where
  "is_title_line l \<longleftrightarrow> py_in title_marker l"

definition is_summary_line :: "pystr \<Rightarrow> bool" where
  "is_summary_line l \<longleftrightarrow> \<not> py_in title_marker l \<and> py_in summary_marker l"

definition is_quotes_line :: "pystr \<Rightarrow> bool" where
  "is_quotes_line l \<longleftrightarrow>
     \<not> py_in title_marker l \<and> \<not> py_in summary_marker l \<and> py_in quotes_marker l"

definition is_sentiment_line :: "pystr \<Rightarrow> bool" where
  "is_sentiment_line l \<longleftrightarrow>
     \<not> py_in title_marker l \<and> \<not> py_in summary_marker l \<and> \<not> py_in quotes_marker l \<and>
     (py_in sentiment_marker l \<or> py_in sentiment_marker_joined l)"

text \<open>The test of the second tier: the line mentions sentiment, in Hangul or in Latin letters.\<close>

definition mentions_sentiment :: "pystr \<Rightarrow> bool" where
  "mentions_sentiment l \<longleftrightarrow> py_in sentiment_stem l \<or> py_in sentiment_word (lower l)"

definition has_label :: "pystr \<Rightarrow> bool" where
  "has_label l \<longleftrightarrow> py_in positive l \<or> py_in negative l"

text \<open>A stripped line is a bullet line, or a quote line.\<close>

definition is_bullet :: "pystr \<Rightarrow> bool" where
  "is_bullet t \<longleftrightarrow> startswith t bullet \<or> startswith t dash"

definition is_quote :: "pystr \<Rightarrow> bool" where
  "is_quote t \<longleftrightarrow> startswith t gt_sign \<or> startswith t dquote"

text \<open>Line \<open>i\<close> is the last line of \<open>lines\<close> that satisfies \<open>P\<close>.\<close>

definition last_line_with :: "(pystr \<Rightarrow> bool) \<Rightarrow> pystr list \<Rightarrow> nat \<Rightarrow> bool" where
  "last_line_with P lines i \<longleftrightarrow>
     i < length lines \<and> P (lines ! i) \<and> (\<forall>l \<in> set (drop (Suc i) lines). \<not> P l)"

text \<open>The three lines that follow line \<open>i\<close> (fewer at the end of the text).\<close>

definition window_after :: "pystr list \<Rightarrow> nat \<Rightarrow> pystr list" where
  "window_after lines i = take 3 (drop (Suc i) lines)"

text \<open>
  The quote lines of a window, stripped, up to the first line that is no quote line
  and holds the sentiment label.
\<close>

definition quote_stop :: "pystr \<Rightarrow> bool" where
  "quote_stop l \<longleftrightarrow> \<not> is_quote (strip l) \<and> py_in sentiment_marker (strip l)"

definition quotes_in :: "pystr list \<Rightarrow> pystr list" where
  "quotes_in w = filter is_quote (map strip (takeWhile (\<lambda>l. \<not> quote_stop l) w))"

definition bullets_in :: "pystr list \<Rightarrow> pystr list" where
  "bullets_in w = filter is_bullet (map strip w)"

text \<open>
  The remainder of a line after its last colon; the whole line when it has no colon.
\<close>

definition after_last_colon :: "pystr \<Rightarrow> pystr" where
  "after_last_colon l = rev (takeWhile (\<lambda>c. c \<noteq> 58) (rev l))"

text \<open>
  The reading of the specification, kept apart from the program: the remainder of a line
  after its first colon.
\<close>

definition after_first_colon :: "pystr \<Rightarrow> pystr" where
  "after_first_colon l = drop 1 (dropWhile (\<lambda>c. c \<noteq> 58) l)"

section \<open>Sample responses\<close>

text \<open>
  Concrete inputs, used below to run the properties and to refute the claims that fail.
  The code points are those of the Hangul and ASCII texts described with each.
\<close>

text \<open>
  scenario text: the scenario of the specification: a numbered title line, then a
  numbered sentiment line with the favourable label, a dash and a reason.
\<close>

definition scenario_text :: pystr where
  "scenario_text =
     [49, 46, 32, 54620, 44397, 50612, 32, 51228, 47785, 58, 32, 53580, 49828, 53944, 32,
      51228, 47785, 10, 52, 46, 32, 44048, 49457, 32, 48516, 49437, 58, 32, 54840, 51116,
      32, 45, 32, 51060, 50976]"

text \<open>
  scenario title: the title handed over as fallback in the examples.
\<close>

definition scenario_title :: pystr where
  "scenario_title =
     [84, 101, 115, 116, 32, 116, 105, 116, 108, 101]"

text \<open>
  prose text: a response with no marker and no label.
\<close>

definition prose_text :: pystr where
  "prose_text =
     [112, 108, 97, 105, 110, 32, 112, 114, 111, 115, 101]"

text \<open>
  both labels text: one sentiment line whose verdict names both labels, the favourable
  one first.
\<close>

definition both_labels_text :: pystr where
  "both_labels_text =
     [44048, 49457, 32, 48516, 49437, 58, 32, 54840, 51116, 32, 50500, 45772, 32, 50501,
      51116]"

text \<open>
  two verdicts text: two sentiment lines: the first says favourable, the second
  unfavourable.
\<close>

definition two_verdicts_text :: pystr where
  "two_verdicts_text =
     [44048, 49457, 32, 48516, 49437, 58, 32, 54840, 51116, 10, 44048, 49457, 32, 48516,
      49437, 58, 32, 50501, 51116]"

text \<open>
  negative text: a numbered sentiment line with the unfavourable label and a reason.
\<close>

definition negative_text :: pystr where
  "negative_text =
     [52, 46, 32, 44048, 49457, 32, 48516, 49437, 58, 32, 50501, 51116, 32, 45, 32, 51060,
      50976]"

text \<open>
  late positive text: prose with no sentiment line: the unfavourable label at index 0,
  the favourable one at index 11.
\<close>

definition late_positive_text :: pystr where
  "late_positive_text =
     [50501, 51116, 32, 50864, 47140, 50640, 46020, 32, 44208, 44397, 32, 54840, 51116]"

text \<open>
  stem negative text: a line with the stem of the sentiment label alone and the
  unfavourable label, then a line with the favourable label.
\<close>

definition stem_negative_text :: pystr where
  "stem_negative_text =
     [44048, 49457, 32, 50501, 51116, 10, 54840, 51116]"

text \<open>
  latin negative text: a line with the word SENTIMENT in capitals and the unfavourable
  label, then a line with the favourable label.
\<close>

definition latin_negative_text :: pystr where
  "latin_negative_text =
     [83, 69, 78, 84, 73, 77, 69, 78, 84, 58, 32, 50501, 51116, 10, 54840, 51116]"

text \<open>
  mention apart text: a line that mentions sentiment and holds no label, then a line
  with the unfavourable label followed by the favourable one.
\<close>

definition mention_apart_text :: pystr where
  "mention_apart_text =
     [83, 101, 110, 116, 105, 109, 101, 110, 116, 32, 63, 10, 50501, 51116, 32, 54840,
      51116]"

text \<open>
  two colons text: a sentiment line with two colons: the favourable label after the
  first, the unfavourable one after the second.
\<close>

definition two_colons_text :: pystr where
  "two_colons_text =
     [44048, 49457, 32, 48516, 49437, 58, 32, 54840, 51116, 58, 32, 50501, 51116]"

text \<open>
  no colon text: a sentiment line without colon.
\<close>

definition no_colon_text :: pystr where
  "no_colon_text =
     [44048, 49457, 32, 48516, 49437, 32, 54840, 51116]"

text \<open>
  title and summary text: a first line that holds the title marker and the summary
  marker, then one bullet line.
\<close>

definition title_and_summary_text :: pystr where
  "title_and_summary_text =
     [54620, 44397, 50612, 32, 51228, 47785, 58, 32, 51, 51460, 32, 50836, 50557, 58, 10,
      8226, 32, 97]"

text \<open>
  bullets text: a summary line, a bullet line with a trailing blank, an indented dash
  line, a plain line.
\<close>

definition bullets_text :: pystr where
  "bullets_text =
     [50, 46, 32, 51, 51460, 32, 50836, 50557, 58, 10, 8226, 32, 97, 32, 10, 32, 32, 45,
      32, 98, 10, 99]"

text \<open>
  no bullets text: a summary line followed by one plain line.
\<close>

definition no_bullets_text :: pystr where
  "no_bullets_text =
     [51, 51460, 32, 50836, 50557, 58, 10, 120]"

text \<open>
  no quotes text: a key-sentences line followed by one plain line.
\<close>

definition no_quotes_text :: pystr where
  "no_quotes_text =
     [54645, 49900, 32, 47928, 51109, 58, 10, 120]"

text \<open>
  four quotes text: a key-sentences line followed by four quote lines.
\<close>

definition four_quotes_text :: pystr where
  "four_quotes_text =
     [54645, 49900, 32, 47928, 51109, 58, 10, 62, 32, 97, 10, 62, 32, 98, 10, 62, 32, 99,
      10, 62, 32, 100]"

text \<open>
  quotes text: a key-sentences line, one quote line, a sentiment line with the neutral
  label, one more quote line.
\<close>

definition quotes_text :: pystr where
  "quotes_text =
     [51, 46, 32, 54645, 49900, 32, 47928, 51109, 58, 10, 62, 32, 97, 10, 52, 46, 32,
      44048, 49457, 32, 48516, 49437, 58, 32, 51473, 47549, 10, 62, 32, 98]"

text \<open>
  title and sentiment text: a sentiment line that says unfavourable, then a line that
  holds the title marker and a sentiment label that says favourable.
\<close>

definition title_and_sentiment_text :: pystr where
  "title_and_sentiment_text =
     [44048, 49457, 32, 48516, 49437, 58, 32, 50501, 51116, 10, 54620, 44397, 50612, 32,
      51228, 47785, 58, 32, 44048, 49457, 32, 48516, 49437, 58, 32, 54840, 51116]"

text \<open>
  undecided last text: two sentiment lines: the first says favourable, the second
  names no label.
\<close>

definition undecided_last_text :: pystr where
  "undecided_last_text =
     [44048, 49457, 32, 48516, 49437, 58, 32, 54840, 51116, 10, 44048, 49457, 32, 48516,
      49437, 58, 32, 44544, 50052]"


section \<open>Facts about the string operations\<close>

lemma py_in_sublist: "py_in sub s = sublist sub s"
  by (induction s) (auto simp: sublist_Cons_right)

lemma py_in_iff: "py_in sub s \<longleftrightarrow> (\<exists>p r. s = p @ sub @ r)"
  by (simp add: py_in_sublist sublist_def)

lemma py_in_occurs: "py_in sub s \<longleftrightarrow> (\<exists>i. occurs_at sub s i)"
proof
  assume "py_in sub s"
  then obtain p r where "s = p @ sub @ r" by (auto simp: py_in_iff)
  then have "occurs_at sub s (length p)" by (simp add: occurs_at_def)
  then show "\<exists>i. occurs_at sub s i" ..
next
  assume "\<exists>i. occurs_at sub s i"
  then obtain i r where "drop i s = sub @ r" by (auto simp: occurs_at_def prefix_def)
  then have "s = take i s @ sub @ r" by (metis append_take_drop_id)
  then show "py_in sub s" unfolding py_in_iff by blast
qed

lemma dropWhile_py_in:
  assumes "sub \<noteq> []" "\<not> P (hd sub)"
  shows "py_in sub (dropWhile P s) = py_in sub s"
  using assms by (induction s) (auto simp: prefix_Cons neq_Nil_conv)

lemma py_in_rev: "py_in (rev sub) (rev s) = py_in sub s"
  by (simp add: py_in_sublist)

lemma py_in_strip:
  assumes "sub \<noteq> []" "\<not> is_space (hd sub)" "\<not> is_space (last sub)"
  shows "py_in sub (strip s) = py_in sub s"
proof -
  have "py_in sub (strip s) = py_in (rev sub) (dropWhile is_space (rev (dropWhile is_space s)))"
    unfolding strip_def by (metis py_in_rev rev_rev_ident)
  also have "\<dots> = py_in (rev sub) (rev (dropWhile is_space s))"
    using assms by (intro dropWhile_py_in) (auto simp: hd_rev)
  also have "\<dots> = py_in sub (dropWhile is_space s)" by (rule py_in_rev)
  also have "\<dots> = py_in sub s" using assms by (intro dropWhile_py_in) auto
  finally show ?thesis .
qed

lemma split_str_nonempty: "split_str sep s \<noteq> []"
  by (induction sep s rule: split_str.induct) (auto simp: Let_def)

lemma split_str_cases:
  assumes "sep \<noteq> []"
  shows "(\<not> py_in sep s \<and> split_str sep s = [s]) \<or>
         (py_in sep s \<and> tl (split_str sep s) \<noteq> [] \<and>
          (\<exists>pre. s = pre @ sep @ last (split_str sep s)) \<and>
          \<not> py_in sep (last (split_str sep s)))"
  using assms
proof (induction sep s rule: split_str.induct)
  case (1 sep)
  then show ?case by simp
next
  case (2 sep c cs)
  show ?case
  proof (cases "prefix sep (c # cs)")
    case True
    define d where "d = drop (length sep) (c # cs)"
    define r where "r = split_str sep d"
    have eq: "c # cs = sep @ d"
      using True unfolding d_def prefix_def by auto
    have sp: "split_str sep (c # cs) = [] # r"
      using True 2(3) unfolding r_def d_def by simp
    have rne: "r \<noteq> []" unfolding r_def by (rule split_str_nonempty)
    have l: "last (split_str sep (c # cs)) = last r"
      using sp rne by simp
    have pin: "py_in sep (c # cs)" using True by simp
    have t: "tl (split_str sep (c # cs)) \<noteq> []" using sp rne by simp
    have ih: "(\<not> py_in sep d \<and> r = [d]) \<or>
         (py_in sep d \<and> tl r \<noteq> [] \<and>
          (\<exists>pre. d = pre @ sep @ last r) \<and> \<not> py_in sep (last r))"
      using 2(1) 2(3) True unfolding r_def d_def by blast
    from ih show ?thesis
    proof
      assume a: "\<not> py_in sep d \<and> r = [d]"
      then have "c # cs = [] @ sep @ last r" using eq by simp
      then have "\<exists>pre. c # cs = pre @ sep @ last r" by blast
      moreover have "\<not> py_in sep (last r)" using a by simp
      ultimately show ?thesis using pin t l by simp
    next
      assume a: "py_in sep d \<and> tl r \<noteq> [] \<and>
          (\<exists>pre. d = pre @ sep @ last r) \<and> \<not> py_in sep (last r)"
      then obtain pre where "d = pre @ sep @ last r" by blast
      then have "c # cs = (sep @ pre) @ sep @ last r"
        using eq by simp
      then have "\<exists>pre. c # cs = pre @ sep @ last r" by blast
      moreover have "\<not> py_in sep (last r)" using a by simp
      ultimately show ?thesis using pin t l by simp
    qed
  next
    case False
    define r where "r = split_str sep cs"
    have sp: "split_str sep (c # cs) = (c # hd r) # tl r"
      using False unfolding r_def by (simp add: Let_def)
    have pin: "py_in sep (c # cs) = py_in sep cs" using False by simp
    have ih: "(\<not> py_in sep cs \<and> r = [cs]) \<or>
         (py_in sep cs \<and> tl r \<noteq> [] \<and>
          (\<exists>pre. cs = pre @ sep @ last r) \<and> \<not> py_in sep (last r))"
      using 2(2) 2(3) False unfolding r_def by blast
    from ih show ?thesis
    proof
      assume "\<not> py_in sep cs \<and> r = [cs]"
      then show ?thesis using sp pin by simp
    next
      assume a: "py_in sep cs \<and> tl r \<noteq> [] \<and>
          (\<exists>pre. cs = pre @ sep @ last r) \<and> \<not> py_in sep (last r)"
      then have rne: "r \<noteq> []" by auto
      have l: "last (split_str sep (c # cs)) = last r"
        using sp a rne by (simp add: last_tl)
      from a obtain pre where "cs = pre @ sep @ last r" by blast
      then have "c # cs = (c # pre) @ sep @ last r" by simp
      then have "\<exists>pre. c # cs = pre @ sep @ last r" by blast
      moreover have "tl (split_str sep (c # cs)) \<noteq> []" using sp a by simp
      moreover have "\<not> py_in sep (last r)" using a by simp
      ultimately show ?thesis using pin a l by simp
    qed
  qed
qed


lemma occurs_at_Cons_0: "occurs_at sub (c # cs) 0 = prefix sub (c # cs)"
  by (simp add: occurs_at_def)

lemma occurs_at_Cons_Suc: "occurs_at sub (c # cs) (Suc i) = occurs_at sub cs i"
  by (simp add: occurs_at_def)

lemma occurs_at_Nil: "sub \<noteq> [] \<Longrightarrow> \<not> occurs_at sub [] i"
  by (simp add: occurs_at_def)

lemma rfind_from_cases:
  assumes "sub \<noteq> []"
  shows "(rfind_from sub s k acc = acc \<and> (\<forall>i. \<not> occurs_at sub s i)) \<or>
         (\<exists>i. rfind_from sub s k acc = k + int i \<and> occurs_at sub s i \<and>
              (\<forall>j. occurs_at sub s j \<longrightarrow> j \<le> i))"
proof (induction s arbitrary: k acc)
  case Nil
  then show ?case using assms by (simp add: occurs_at_Nil)
next
  case (Cons c cs)
  define acc' where "acc' = (if prefix sub (c # cs) then k else acc)"
  have step: "rfind_from sub (c # cs) k acc = rfind_from sub cs (k + 1) acc'"
    unfolding acc'_def by simp
  from Cons[of "k + 1" acc'] show ?case
  proof
    assume a: "rfind_from sub cs (k + 1) acc' = acc' \<and> (\<forall>i. \<not> occurs_at sub cs i)"
    show ?thesis
    proof (cases "prefix sub (c # cs)")
      case True
      have "rfind_from sub (c # cs) k acc = k + int 0" using a step True acc'_def by simp
      moreover have "occurs_at sub (c # cs) 0" using True by (simp add: occurs_at_Cons_0)
      moreover have "\<forall>j. occurs_at sub (c # cs) j \<longrightarrow> j \<le> 0"
      proof (intro allI impI)
        fix j assume "occurs_at sub (c # cs) j"
        then show "j \<le> 0" using a by (cases j) (auto simp: occurs_at_Cons_Suc)
      qed
      ultimately show ?thesis by blast
    next
      case False
      have "rfind_from sub (c # cs) k acc = acc" using a step False acc'_def by simp
      moreover have "\<forall>i. \<not> occurs_at sub (c # cs) i"
      proof
        fix i show "\<not> occurs_at sub (c # cs) i"
          using a False by (cases i) (auto simp: occurs_at_Cons_Suc occurs_at_Cons_0)
      qed
      ultimately show ?thesis by blast
    qed
  next
    assume "\<exists>i. rfind_from sub cs (k + 1) acc' = k + 1 + int i \<and> occurs_at sub cs i \<and>
              (\<forall>j. occurs_at sub cs j \<longrightarrow> j \<le> i)"
    then obtain i where i: "rfind_from sub cs (k + 1) acc' = k + 1 + int i"
      "occurs_at sub cs i" "\<forall>j. occurs_at sub cs j \<longrightarrow> j \<le> i" by blast
    have "rfind_from sub (c # cs) k acc = k + int (Suc i)" using i(1) step by simp
    moreover have "occurs_at sub (c # cs) (Suc i)" using i(2) by (simp add: occurs_at_Cons_Suc)
    moreover have "\<forall>j. occurs_at sub (c # cs) j \<longrightarrow> j \<le> Suc i"
    proof (intro allI impI)
      fix j assume "occurs_at sub (c # cs) j"
      then show "j \<le> Suc i" using i(3) by (cases j) (auto simp: occurs_at_Cons_Suc)
    qed
    ultimately show ?thesis by blast
  qed
qed

lemma rfind_cases:
  assumes "sub \<noteq> []"
  shows "(rfind s sub = - 1 \<and> (\<forall>i. \<not> occurs_at sub s i)) \<or>
         (\<exists>i. rfind s sub = int i \<and> occurs_at sub s i \<and>
              (\<forall>j. occurs_at sub s j \<longrightarrow> j \<le> i))"
  using rfind_from_cases[OF assms, of s 0 "- 1"] unfolding rfind_def by simp

lemma foldl_upt_Suc: "foldl f s [0 ..< Suc n] = f (foldl f s [0 ..< n]) n"
  by simp

lemma foldl_untouched:
  assumes "\<And>t j. j < n \<Longrightarrow> \<not> P j \<Longrightarrow> g (f t j) = g t"
    and "\<forall>j < n. \<not> P j"
  shows "g (foldl f s [0 ..< n]) = g s"
  using assms
proof (induction n)
  case 0
  then show ?case by simp
next
  case (Suc n)
  have "g (foldl f s [0 ..< Suc n]) = g (f (foldl f s [0 ..< n]) n)" by simp
  also have "\<dots> = g (foldl f s [0 ..< n])" using Suc.prems by simp
  also have "\<dots> = g s" using Suc by simp
  finally show ?case .
qed

lemma foldl_last_writer:
  assumes "\<And>t j. j < n \<Longrightarrow> \<not> P j \<Longrightarrow> g (f t j) = g t"
    and "\<And>t j. j < n \<Longrightarrow> P j \<Longrightarrow> g (f t j) = v j"
    and "i < n" "P i" "\<forall>j. i < j \<and> j < n \<longrightarrow> \<not> P j"
  shows "g (foldl f s [0 ..< n]) = v i"
  using assms
proof (induction n)
  case 0
  then show ?case by simp
next
  case (Suc n)
  show ?case
  proof (cases "i = n")
    case True
    then show ?thesis using Suc.prems(2)[of n] Suc.prems(4) by simp
  next
    case False
    then have lt: "i < n" using Suc.prems(3) by simp
    have np: "\<not> P n" using Suc.prems(5) lt by simp
    have "g (foldl f s [0 ..< Suc n]) = g (f (foldl f s [0 ..< n]) n)" by simp
    also have "\<dots> = g (foldl f s [0 ..< n])" using Suc.prems(1)[of n] np by simp
    also have "\<dots> = v i"
      using Suc.IH Suc.prems lt by simp
    finally show ?thesis .
  qed
qed

lemma lookahead_take_drop: "lookahead lines i = take 3 (drop (Suc i) lines)"
proof (rule nth_equalityI)
  show "length (lookahead lines i) = length (take 3 (drop (Suc i) lines))"
    by (auto simp: lookahead_def)
next
  fix k assume kl: "k < length (lookahead lines i)"
  define hi where "hi = min (i + 4) (length lines)"
  have k: "Suc i + k < hi" using kl unfolding hi_def lookahead_def by simp arith
  have k3: "k < 3" and kn: "Suc i + k < length lines" using k unfolding hi_def by auto
  have "lookahead lines i ! k = lines ! ([Suc i ..< hi] ! k)"
    using kl unfolding lookahead_def hi_def by simp
  also have "[Suc i ..< hi] ! k = Suc i + k" using k by (rule nth_upt)
  also have "lines ! (Suc i + k) = take 3 (drop (Suc i) lines) ! k"
    using k3 kn by simp
  finally show "lookahead lines i ! k = take 3 (drop (Suc i) lines) ! k" .
qed


lemma collect_bullets_eq: "collect_bullets w = bullets_in w"
  by (induction w) (auto simp: bullets_in_def is_bullet_def)

lemma collect_quotes_eq: "collect_quotes w = quotes_in w"
  by (induction w) (auto simp: quotes_in_def is_quote_def quote_stop_def Let_def)

lemma join_nl_nonempty: "ts \<noteq> [] \<Longrightarrow> \<forall>t \<in> set ts. t \<noteq> [] \<Longrightarrow> join_nl ts \<noteq> []"
  by (induction ts rule: join_nl.induct) auto

lemma is_bullet_nonempty: "is_bullet t \<Longrightarrow> t \<noteq> []"
  by (auto simp: is_bullet_def startswith_def bullet_def dash_def)

lemma bullets_join_nonempty: "bullets_in w \<noteq> [] \<Longrightarrow> join_nl (bullets_in w) \<noteq> []"
  by (rule join_nl_nonempty) (auto simp: bullets_in_def is_bullet_nonempty)

lemma rescan_find:
  "rescan lines s =
     (case find (\<lambda>l. mentions_sentiment l \<and> has_label l) lines of
        None \<Rightarrow> s
      | Some l \<Rightarrow> if py_in positive l then positive else negative)"
  by (induction lines) (auto simp: mentions_sentiment_def has_label_def Let_def)



lemma scan_summary_keep:
  "\<not> is_summary_line (lines ! j) \<Longrightarrow> ps_summary (scan_line rt lines t j) = ps_summary t"
  by (auto simp: scan_line_def Let_def is_summary_line_def)

lemma scan_summary_set:
  "is_summary_line (lines ! j) \<Longrightarrow>
   ps_summary (scan_line rt lines t j) =
     (if bullets_in (window_after lines j) \<noteq> [] then join_nl (bullets_in (window_after lines j))
      else rt)"
  by (simp add: scan_line_def Let_def is_summary_line_def collect_bullets_eq
      lookahead_take_drop window_after_def)

lemma scan_quotes_keep:
  "\<not> is_quotes_line (lines ! j) \<Longrightarrow> ps_quotes (scan_line rt lines t j) = ps_quotes t"
  by (auto simp: scan_line_def Let_def is_quotes_line_def)

lemma scan_quotes_set:
  "is_quotes_line (lines ! j) \<Longrightarrow>
   ps_quotes (scan_line rt lines t j) = join_nl (quotes_in (window_after lines j))"
  by (simp add: scan_line_def Let_def is_quotes_line_def collect_quotes_eq
      lookahead_take_drop window_after_def)

lemma scan_sentiment_keep:
  "\<not> is_sentiment_line (lines ! j) \<Longrightarrow> ps_sentiment (scan_line rt lines t j) = ps_sentiment t"
  by (auto simp: scan_line_def Let_def is_sentiment_line_def)

lemma scan_sentiment_set:
  "is_sentiment_line (lines ! j) \<Longrightarrow>
   ps_sentiment (scan_line rt lines t j) = classify (sentiment_text (lines ! j))"
  by (auto simp add: scan_line_def Let_def is_sentiment_line_def)

lemma last_line_withD:
  assumes "last_line_with P lines i"
  shows "i < length lines" "P (lines ! i)" "\<forall>j. i < j \<and> j < length lines \<longrightarrow> \<not> P (lines ! j)"
proof -
  show "i < length lines" "P (lines ! i)" using assms by (auto simp: last_line_with_def)
  show "\<forall>j. i < j \<and> j < length lines \<longrightarrow> \<not> P (lines ! j)"
  proof (intro allI impI)
    fix j assume j: "i < j \<and> j < length lines"
    then have "lines ! j = drop (Suc i) lines ! (j - Suc i)" by simp
    moreover have "j - Suc i < length (drop (Suc i) lines)" using j by simp arith
    ultimately have "lines ! j \<in> set (drop (Suc i) lines)" by (metis nth_mem)
    then show "\<not> P (lines ! j)" using assms by (auto simp: last_line_with_def)
  qed
qed

lemma none_with: "\<forall>l \<in> set lines. \<not> P l \<Longrightarrow> \<forall>j < length lines. \<not> P (lines ! j)"
  by simp

lemma exists_last_line_with:
  "\<exists>l \<in> set lines. P l \<Longrightarrow> \<exists>i. last_line_with P lines i"
proof (induction lines rule: rev_induct)
  case Nil
  then show ?case by simp
next
  case (snoc x xs)
  show ?case
  proof (cases "P x")
    case True
    then have "last_line_with P (xs @ [x]) (length xs)" by (simp add: last_line_with_def)
    then show ?thesis ..
  next
    case False
    then have "\<exists>l \<in> set xs. P l" using snoc.prems by auto
    then obtain i where i: "last_line_with P xs i" using snoc.IH by blast
    then have "last_line_with P (xs @ [x]) i"
      using False by (auto simp: last_line_with_def nth_append)
    then show ?thesis ..
  qed
qed




lemma scan_lines_summary_none:
  assumes "\<forall>l \<in> set lines. \<not> is_summary_line l"
  shows "ps_summary (scan_lines rt lines nt) = []"
proof -
  have "ps_summary (foldl (scan_line rt lines)
          \<lparr>ps_title = nt, ps_summary = [], ps_quotes = [], ps_sentiment = neutral\<rparr>
          [0 ..< length lines]) =
        ps_summary \<lparr>ps_title = nt, ps_summary = [], ps_quotes = [], ps_sentiment = neutral\<rparr>"
    by (rule foldl_untouched[where P = "\<lambda>j. is_summary_line (lines ! j)"])
       (use assms in \<open>auto simp: scan_summary_keep\<close>)
  then show ?thesis by (simp add: scan_lines_def)
qed

lemma scan_lines_summary_last:
  assumes "last_line_with is_summary_line lines i"
  shows "ps_summary (scan_lines rt lines nt) =
     (if bullets_in (window_after lines i) \<noteq> [] then join_nl (bullets_in (window_after lines i))
      else rt)"
  unfolding scan_lines_def
  by (rule foldl_last_writer[where P = "\<lambda>j. is_summary_line (lines ! j)"])
     (use last_line_withD[OF assms] in \<open>auto simp: scan_summary_keep scan_summary_set\<close>)

lemma scan_lines_quotes_none:
  assumes "\<forall>l \<in> set lines. \<not> is_quotes_line l"
  shows "ps_quotes (scan_lines rt lines nt) = []"
proof -
  have "ps_quotes (foldl (scan_line rt lines)
          \<lparr>ps_title = nt, ps_summary = [], ps_quotes = [], ps_sentiment = neutral\<rparr>
          [0 ..< length lines]) =
        ps_quotes \<lparr>ps_title = nt, ps_summary = [], ps_quotes = [], ps_sentiment = neutral\<rparr>"
    by (rule foldl_untouched[where P = "\<lambda>j. is_quotes_line (lines ! j)"])
       (use assms in \<open>auto simp: scan_quotes_keep\<close>)
  then show ?thesis by (simp add: scan_lines_def)
qed

lemma scan_lines_quotes_last:
  assumes "last_line_with is_quotes_line lines i"
  shows "ps_quotes (scan_lines rt lines nt) = join_nl (quotes_in (window_after lines i))"
  unfolding scan_lines_def
  by (rule foldl_last_writer[where P = "\<lambda>j. is_quotes_line (lines ! j)"])
     (use last_line_withD[OF assms] in \<open>auto simp: scan_quotes_keep scan_quotes_set\<close>)

lemma scan_lines_sentiment_none:
  assumes "\<forall>l \<in> set lines. \<not> is_sentiment_line l"
  shows "ps_sentiment (scan_lines rt lines nt) = neutral"
proof -
  have "ps_sentiment (foldl (scan_line rt lines)
          \<lparr>ps_title = nt, ps_summary = [], ps_quotes = [], ps_sentiment = neutral\<rparr>
          [0 ..< length lines]) =
        ps_sentiment \<lparr>ps_title = nt, ps_summary = [], ps_quotes = [], ps_sentiment = neutral\<rparr>"
    by (rule foldl_untouched[where P = "\<lambda>j. is_sentiment_line (lines ! j)"])
       (use assms in \<open>auto simp: scan_sentiment_keep\<close>)
  then show ?thesis by (simp add: scan_lines_def)
qed

lemma scan_lines_sentiment_last:
  assumes "last_line_with is_sentiment_line lines i"
  shows "ps_sentiment (scan_lines rt lines nt) = classify (sentiment_text (lines ! i))"
  unfolding scan_lines_def
  by (rule foldl_last_writer[where P = "\<lambda>j. is_sentiment_line (lines ! j)"])
     (use last_line_withD[OF assms] in \<open>auto simp: scan_sentiment_keep scan_sentiment_set\<close>)


lemma result_summary:
  "summary (summarize_with_gemini (Inr raw) nt) =
     (if ps_summary (scan_lines raw (lines_of raw) nt) = [] then raw
      else ps_summary (scan_lines raw (lines_of raw) nt))"
  by (simp add: summarize_with_gemini_def interpret_response_def Let_def)

lemma result_quotes:
  "key_quotes (summarize_with_gemini (Inr raw) nt) =
     Some (ps_quotes (scan_lines raw (lines_of raw) nt))"
  by (simp add: summarize_with_gemini_def interpret_response_def Let_def)

lemma result_sentiment:
  "sentiment (summarize_with_gemini (Inr raw) nt) =
     resolve_sentiment raw (lines_of raw) (ps_sentiment (scan_lines raw (lines_of raw) nt))"
  by (simp add: summarize_with_gemini_def interpret_response_def Let_def)

lemma labels_distinct:
  "positive \<noteq> neutral" "negative \<noteq> neutral" "positive \<noteq> negative"
  by (simp_all add: positive_def negative_def neutral_def)

lemma classify_range: "classify t \<in> {positive, negative, neutral}"
  by (simp add: classify_def)

lemma fallback_eq:
  "resolve_sentiment raw lines s =
     (if s \<noteq> neutral then s
      else case find (\<lambda>l. mentions_sentiment l \<and> has_label l) lines of
             Some l \<Rightarrow> if py_in positive l then positive else negative
           | None \<Rightarrow> last_mention raw neutral)"
  using labels_distinct
  by (auto simp: resolve_sentiment_def rescan_find Let_def split: option.splits)

lemma last_mention_range: "last_mention raw neutral \<in> {positive, negative, neutral}"
  by (simp add: last_mention_def Let_def)

lemma resolve_range:
  "s \<in> {positive, negative, neutral} \<Longrightarrow>
   resolve_sentiment raw lines s \<in> {positive, negative, neutral}"
  using last_mention_range[of raw]
  by (auto simp: fallback_eq split: option.splits)

lemma scan_sentiment_range:
  "ps_sentiment (scan_lines rt lines nt) \<in> {positive, negative, neutral}"
proof (cases "\<exists>l \<in> set lines. is_sentiment_line l")
  case True
  then obtain i where "last_line_with is_sentiment_line lines i"
    using exists_last_line_with by blast
  then show ?thesis using classify_range by (simp add: scan_lines_sentiment_last)
next
  case False
  then show ?thesis by (simp add: scan_lines_sentiment_none)
qed

text \<open>The last mention, told by positions instead of \<open>rfind\<close>.\<close>

lemma py_in_prefix_part: "py_in (a @ b) s \<Longrightarrow> py_in a s"
proof -
  assume "py_in (a @ b) s"
  then obtain p r where "s = p @ (a @ b) @ r" unfolding py_in_iff by blast
  then have "s = p @ a @ (b @ r)" by simp
  then show "py_in a s" unfolding py_in_iff by blast
qed

lemma sentiment_line_mentions: "is_sentiment_line l \<Longrightarrow> mentions_sentiment l"
proof -
  assume a: "is_sentiment_line l"
  have m: "sentiment_marker = sentiment_stem @ [32, 48516, 49437]"
    and j: "sentiment_marker_joined = sentiment_stem @ [48516, 49437]"
    by (simp_all add: sentiment_marker_def sentiment_marker_joined_def sentiment_stem_def)
  from a have "py_in sentiment_marker l \<or> py_in sentiment_marker_joined l"
    by (simp add: is_sentiment_line_def)
  then have "py_in sentiment_stem l"
    using py_in_prefix_part m j by metis
  then show ?thesis by (simp add: mentions_sentiment_def)
qed

lemma occurs_exclusive: "occurs_at positive s i \<Longrightarrow> \<not> occurs_at negative s i"
  by (auto simp: occurs_at_def prefix_def positive_def negative_def)

lemma occurs_le_rfind:
  assumes "sub \<noteq> []" "occurs_at sub s j"
  shows "int j \<le> rfind s sub"
  using rfind_cases[OF assms(1), of s] assms(2) by auto

lemma last_mention_spec:
  "last_mention raw s =
     (if (\<exists>i. occurs_at positive raw i \<and> (\<forall>j. occurs_at negative raw j \<longrightarrow> j < i))
      then positive
      else if (\<exists>j. occurs_at negative raw j \<and> (\<forall>i. occurs_at positive raw i \<longrightarrow> i < j))
      then negative
      else s)"
  (is "_ = (if ?P then _ else if ?N then _ else _)")
proof -
  have pne: "positive \<noteq> []" and nne: "negative \<noteq> []"
    by (simp_all add: positive_def negative_def)
  note pc = rfind_cases[OF pne, of raw] and nc = rfind_cases[OF nne, of raw]
  show ?thesis
  proof (cases "\<exists>i. occurs_at positive raw i")
    case False
    then have rp: "rfind raw positive = - 1" using pc by auto
    have nP: "\<not> ?P" using False by blast
    show ?thesis
    proof (cases "\<exists>j. occurs_at negative raw j")
      case False
      then have rn: "rfind raw negative = - 1" using nc by auto
      have nN: "\<not> ?N" using False by blast
      have lm: "last_mention raw s = s" by (simp add: last_mention_def Let_def rp rn)
      show ?thesis by (simp only: lm nP nN if_False)
    next
      case True
      then obtain n where n: "rfind raw negative = int n" "occurs_at negative raw n"
        using nc by auto
      have N: "?N" using n(2) \<open>\<not> (\<exists>i. occurs_at positive raw i)\<close> by blast
      have lm: "last_mention raw s = negative" by (simp add: last_mention_def Let_def rp n(1))
      show ?thesis by (simp only: lm nP N if_False if_True)
    qed
  next
    case True
    then obtain p where p: "rfind raw positive = int p" "occurs_at positive raw p"
      "\<forall>j. occurs_at positive raw j \<longrightarrow> j \<le> p"
      using pc by auto
    show ?thesis
    proof (cases "\<exists>j. occurs_at negative raw j")
      case False
      then have rn: "rfind raw negative = - 1" using nc by auto
      have P: "?P" using p(2) False by blast
      have lm: "last_mention raw s = positive" by (simp add: last_mention_def Let_def rn p(1))
      show ?thesis by (simp only: lm P if_True)
    next
      case True
      then obtain n where n: "rfind raw negative = int n" "occurs_at negative raw n"
        "\<forall>j. occurs_at negative raw j \<longrightarrow> j \<le> n"
        using nc by auto
      have ne: "p \<noteq> n" using p(2) n(2) occurs_exclusive by blast
      show ?thesis
      proof (cases "n < p")
        case True
        have "\<forall>j. occurs_at negative raw j \<longrightarrow> j < p" using n(3) True by auto
        then have P: "?P" using p(2) by blast
        have lm: "last_mention raw s = positive"
          using True by (simp add: last_mention_def Let_def n(1) p(1))
        show ?thesis by (simp only: lm P if_True)
      next
        case False
        then have lt: "p < n" using ne by simp
        have "\<forall>i. occurs_at positive raw i \<longrightarrow> i < n" using p(3) lt by auto
        then have N: "?N" using n(2) by blast
        have nP: "\<not> ?P"
        proof
          assume "?P"
          then obtain i where "occurs_at positive raw i" "\<forall>j. occurs_at negative raw j \<longrightarrow> j < i"
            by blast
          then have "n < i" "i \<le> p" using n(2) p(3) by auto
          then show False using lt by simp
        qed
        have lm: "last_mention raw s = negative"
          using lt by (simp add: last_mention_def Let_def n(1) p(1))
        show ?thesis by (simp only: lm nP N if_False if_True)
      qed
    qed
  qed
qed

text \<open>The text after the last colon, and what the sentiment branch classifies.\<close>

lemma py_in_single: "py_in [c] s \<longleftrightarrow> c \<in> set s"
  by (induction s) auto

lemma after_last_colon_free: "58 \<notin> set (after_last_colon l)"
proof
  assume "58 \<in> set (after_last_colon l)"
  then have "58 \<in> set (takeWhile (\<lambda>c. c \<noteq> 58) (rev l))" by (simp add: after_last_colon_def)
  then show False using set_takeWhileD by fastforce
qed

lemma after_last_colon_unique:
  assumes "l = pre @ [58] @ rest" "58 \<notin> set rest"
  shows "after_last_colon l = rest"
proof -
  have "rev l = rev rest @ 58 # rev pre" using assms(1) by simp
  moreover have "takeWhile (\<lambda>c. c \<noteq> 58) (rev rest @ 58 # rev pre) = rev rest"
    using assms(2) by (auto simp: takeWhile_tail)
  ultimately show ?thesis by (simp add: after_last_colon_def)
qed

lemma after_last_colon_whole: "58 \<notin> set l \<Longrightarrow> after_last_colon l = l"
proof -
  assume "58 \<notin> set l"
  then have "\<forall>c \<in> set (rev l). c \<noteq> 58" by auto
  then have tw: "takeWhile (\<lambda>c. c \<noteq> 58) (rev l) = rev l" by (simp only: takeWhile_eq_all_conv)
  show ?thesis unfolding after_last_colon_def tw by (rule rev_rev_ident)
qed

lemma last_split_colon: "last (split_str colon l) = after_last_colon l"
proof -
  have cne: "colon \<noteq> []" by (simp add: colon_def)
  from split_str_cases[OF cne, of l] show ?thesis
  proof
    assume "\<not> py_in colon l \<and> split_str colon l = [l]"
    then show ?thesis by (simp add: colon_def py_in_single after_last_colon_whole)
  next
    assume a: "py_in colon l \<and> tl (split_str colon l) \<noteq> [] \<and>
          (\<exists>pre. l = pre @ colon @ last (split_str colon l)) \<and>
          \<not> py_in colon (last (split_str colon l))"
    then obtain pre where "l = pre @ [58] @ last (split_str colon l)"
      by (auto simp: colon_def)
    moreover have "58 \<notin> set (last (split_str colon l))"
      using a by (simp add: colon_def py_in_single)
    ultimately show ?thesis using after_last_colon_unique by metis
  qed
qed

lemma after_last_colon_decomp:
  assumes "py_in colon l"
  shows "\<exists>pre. l = pre @ colon @ after_last_colon l"
proof -
  have cne: "colon \<noteq> []" by (simp add: colon_def)
  from split_str_cases[OF cne, of l] assms
  have "\<exists>pre. l = pre @ colon @ last (split_str colon l)" by blast
  then show ?thesis by (simp only: last_split_colon)
qed

lemma sentiment_text_eq:
  "sentiment_text l = (if py_in colon l then strip (after_last_colon l) else l)"
  by (simp add: sentiment_text_def last_split_colon)

lemma label_in_sentiment_text:
  "py_in positive (sentiment_text l) = py_in positive (after_last_colon l)"
  "py_in negative (sentiment_text l) = py_in negative (after_last_colon l)"
proof -
  have sp: "py_in positive (strip t) = py_in positive t" for t
    by (rule py_in_strip) (simp_all add: positive_def is_space_def)
  have sn: "py_in negative (strip t) = py_in negative t" for t
    by (rule py_in_strip) (simp_all add: negative_def is_space_def)
  have w: "\<not> py_in colon l \<Longrightarrow> after_last_colon l = l"
    by (simp add: colon_def py_in_single after_last_colon_whole)
  show "py_in positive (sentiment_text l) = py_in positive (after_last_colon l)"
    using sp w by (simp add: sentiment_text_eq)
  show "py_in negative (sentiment_text l) = py_in negative (after_last_colon l)"
    using sn w by (simp add: sentiment_text_eq)
qed

lemma classify_after_last_colon: "classify (sentiment_text l) = classify (after_last_colon l)"
  by (simp add: classify_def label_in_sentiment_text)





lemmas literal_defs =
  title_marker_def summary_marker_def quotes_marker_def sentiment_marker_def
  sentiment_marker_joined_def sentiment_stem_def sentiment_word_def positive_def negative_def
  neutral_def colon_def newline_def bullet_def dash_def gt_sign_def dquote_def

lemmas line_kind_defs =
  is_title_line_def is_summary_line_def is_quotes_line_def is_sentiment_line_def
  mentions_sentiment_def has_label_def lower_def lower_cp_def

text \<open>The fields of the result, by the last line of each kind.\<close>

lemma sentiment_by_last_line:
  assumes "last_line_with is_sentiment_line (lines_of raw) i"
  shows "ps_sentiment (scan_lines raw (lines_of raw) nt) =
           classify (after_last_colon (lines_of raw ! i))"
    and "sentiment (summarize_with_gemini (Inr raw) nt) =
           (if classify (after_last_colon (lines_of raw ! i)) \<noteq> neutral
            then classify (after_last_colon (lines_of raw ! i))
            else case find (\<lambda>l. mentions_sentiment l \<and> has_label l) (lines_of raw) of
                   Some l \<Rightarrow> if py_in positive l then positive else negative
                 | None \<Rightarrow> last_mention raw neutral)"
proof -
  show p: "ps_sentiment (scan_lines raw (lines_of raw) nt) =
           classify (after_last_colon (lines_of raw ! i))"
    by (simp only: scan_lines_sentiment_last[OF assms] classify_after_last_colon)
  show "sentiment (summarize_with_gemini (Inr raw) nt) =
           (if classify (after_last_colon (lines_of raw ! i)) \<noteq> neutral
            then classify (after_last_colon (lines_of raw ! i))
            else case find (\<lambda>l. mentions_sentiment l \<and> has_label l) (lines_of raw) of
                   Some l \<Rightarrow> if py_in positive l then positive else negative
                 | None \<Rightarrow> last_mention raw neutral)"
    by (simp only: result_sentiment p fallback_eq)
qed

lemma summary_by_last_line:
  assumes "last_line_with is_summary_line (lines_of raw) i"
  shows "summary (summarize_with_gemini (Inr raw) nt) =
           (if bullets_in (window_after (lines_of raw) i) = [] then raw
            else join_nl (bullets_in (window_after (lines_of raw) i)))"
  using bullets_join_nonempty[of "window_after (lines_of raw) i"]
  by (simp add: result_summary scan_lines_summary_last[OF assms])

lemma summary_without_line:
  assumes "\<forall>l \<in> set (lines_of raw). \<not> is_summary_line l"
  shows "summary (summarize_with_gemini (Inr raw) nt) = raw"
  by (simp add: result_summary scan_lines_summary_none[OF assms])

lemma quotes_by_last_line:
  assumes "last_line_with is_quotes_line (lines_of raw) i"
  shows "key_quotes (summarize_with_gemini (Inr raw) nt) =
           Some (join_nl (quotes_in (window_after (lines_of raw) i)))"
  by (simp add: result_quotes scan_lines_quotes_last[OF assms])

lemma quotes_without_line:
  assumes "\<forall>l \<in> set (lines_of raw). \<not> is_quotes_line l"
  shows "key_quotes (summarize_with_gemini (Inr raw) nt) = Some []"
  by (simp add: result_quotes scan_lines_quotes_none[OF assms])

lemma quotes_in_none: "\<forall>l \<in> set w. \<not> is_quote (strip l) \<Longrightarrow> quotes_in w = []"
  by (auto simp: quotes_in_def filter_empty_conv dest: set_takeWhileD)

text \<open>A sentiment line without label leaves the first tier neutral.\<close>

lemma after_last_colon_suffix: "\<exists>x. l = x @ after_last_colon l"
proof -
  have "rev l = takeWhile (\<lambda>c. c \<noteq> 58) (rev l) @ dropWhile (\<lambda>c. c \<noteq> 58) (rev l)"
    by simp
  then have "rev (rev l) =
      rev (dropWhile (\<lambda>c. c \<noteq> 58) (rev l)) @ rev (takeWhile (\<lambda>c. c \<noteq> 58) (rev l))"
    by (metis rev_append)
  then have "l = rev (dropWhile (\<lambda>c. c \<noteq> 58) (rev l)) @ after_last_colon l"
    by (simp add: after_last_colon_def)
  then show ?thesis by blast
qed

lemma py_in_after_last_colon: "py_in tok (after_last_colon l) \<Longrightarrow> py_in tok l"
proof -
  assume "py_in tok (after_last_colon l)"
  then obtain p r where a: "after_last_colon l = p @ tok @ r" unfolding py_in_iff by blast
  obtain x where "l = x @ after_last_colon l" using after_last_colon_suffix by blast
  then have "l = (x @ p) @ tok @ r" using a by simp
  then show "py_in tok l" unfolding py_in_iff by blast
qed

lemma classify_without_label: "\<not> has_label l \<Longrightarrow> classify (after_last_colon l) = neutral"
  using py_in_after_last_colon[of positive l] py_in_after_last_colon[of negative l]
  by (auto simp: classify_def has_label_def)

lemma scan_sentiment_without_label:
  assumes "\<forall>l \<in> set lines. \<not> (mentions_sentiment l \<and> has_label l)"
  shows "ps_sentiment (scan_lines rt lines nt) = neutral"
proof (cases "\<exists>l \<in> set lines. is_sentiment_line l")
  case True
  then obtain i where i: "last_line_with is_sentiment_line lines i"
    using exists_last_line_with by blast
  then have "lines ! i \<in> set lines" "is_sentiment_line (lines ! i)"
    by (simp_all add: last_line_with_def)
  then have "\<not> has_label (lines ! i)" using assms sentiment_line_mentions by blast
  then have "classify (after_last_colon (lines ! i)) = neutral"
    by (rule classify_without_label)
  then show ?thesis
    by (simp only: scan_lines_sentiment_last[OF i] classify_after_last_colon)
next
  case False
  then show ?thesis by (simp add: scan_lines_sentiment_none)
qed

text \<open>The lines of the sample responses.\<close>

lemma lines_of_scenario:
  "lines_of scenario_text =
    [[49, 46, 32, 54620, 44397, 50612, 32, 51228, 47785, 58, 32, 53580, 49828, 53944, 32,
       51228, 47785],
      [52, 46, 32, 44048, 49457, 32, 48516, 49437, 58, 32, 54840, 51116, 32, 45, 32, 51060,
       50976]]"
  by (simp add: lines_of_def scenario_text_def strip_def is_space_def newline_def)

lemma lines_of_prose:
  "lines_of prose_text =
    [[112, 108, 97, 105, 110, 32, 112, 114, 111, 115, 101]]"
  by (simp add: lines_of_def prose_text_def strip_def is_space_def newline_def)

lemma lines_of_both_labels:
  "lines_of both_labels_text =
    [[44048, 49457, 32, 48516, 49437, 58, 32, 54840, 51116, 32, 50500, 45772, 32, 50501,
       51116]]"
  by (simp add: lines_of_def both_labels_text_def strip_def is_space_def newline_def)

lemma lines_of_two_verdicts:
  "lines_of two_verdicts_text =
    [[44048, 49457, 32, 48516, 49437, 58, 32, 54840, 51116],
      [44048, 49457, 32, 48516, 49437, 58, 32, 50501, 51116]]"
  by (simp add: lines_of_def two_verdicts_text_def strip_def is_space_def newline_def)

lemma lines_of_negative:
  "lines_of negative_text =
    [[52, 46, 32, 44048, 49457, 32, 48516, 49437, 58, 32, 50501, 51116, 32, 45, 32, 51060,
       50976]]"
  by (simp add: lines_of_def negative_text_def strip_def is_space_def newline_def)

lemma lines_of_late_positive:
  "lines_of late_positive_text =
    [[50501, 51116, 32, 50864, 47140, 50640, 46020, 32, 44208, 44397, 32, 54840, 51116]]"
  by (simp add: lines_of_def late_positive_text_def strip_def is_space_def newline_def)

lemma lines_of_stem_negative:
  "lines_of stem_negative_text =
    [[44048, 49457, 32, 50501, 51116],
      [54840, 51116]]"
  by (simp add: lines_of_def stem_negative_text_def strip_def is_space_def newline_def)

lemma lines_of_latin_negative:
  "lines_of latin_negative_text =
    [[83, 69, 78, 84, 73, 77, 69, 78, 84, 58, 32, 50501, 51116],
      [54840, 51116]]"
  by (simp add: lines_of_def latin_negative_text_def strip_def is_space_def newline_def)

lemma lines_of_mention_apart:
  "lines_of mention_apart_text =
    [[83, 101, 110, 116, 105, 109, 101, 110, 116, 32, 63],
      [50501, 51116, 32, 54840, 51116]]"
  by (simp add: lines_of_def mention_apart_text_def strip_def is_space_def newline_def)

lemma lines_of_two_colons:
  "lines_of two_colons_text =
    [[44048, 49457, 32, 48516, 49437, 58, 32, 54840, 51116, 58, 32, 50501, 51116]]"
  by (simp add: lines_of_def two_colons_text_def strip_def is_space_def newline_def)

lemma lines_of_no_colon:
  "lines_of no_colon_text =
    [[44048, 49457, 32, 48516, 49437, 32, 54840, 51116]]"
  by (simp add: lines_of_def no_colon_text_def strip_def is_space_def newline_def)

lemma lines_of_title_and_summary:
  "lines_of title_and_summary_text =
    [[54620, 44397, 50612, 32, 51228, 47785, 58, 32, 51, 51460, 32, 50836, 50557, 58],
      [8226, 32, 97]]"
  by (simp add: lines_of_def title_and_summary_text_def strip_def is_space_def newline_def)

lemma lines_of_bullets:
  "lines_of bullets_text =
    [[50, 46, 32, 51, 51460, 32, 50836, 50557, 58],
      [8226, 32, 97, 32],
      [32, 32, 45, 32, 98],
      [99]]"
  by (simp add: lines_of_def bullets_text_def strip_def is_space_def newline_def)

lemma lines_of_no_bullets:
  "lines_of no_bullets_text =
    [[51, 51460, 32, 50836, 50557, 58],
      [120]]"
  by (simp add: lines_of_def no_bullets_text_def strip_def is_space_def newline_def)

lemma lines_of_no_quotes:
  "lines_of no_quotes_text =
    [[54645, 49900, 32, 47928, 51109, 58],
      [120]]"
  by (simp add: lines_of_def no_quotes_text_def strip_def is_space_def newline_def)

lemma lines_of_four_quotes:
  "lines_of four_quotes_text =
    [[54645, 49900, 32, 47928, 51109, 58],
      [62, 32, 97],
      [62, 32, 98],
      [62, 32, 99],
      [62, 32, 100]]"
  by (simp add: lines_of_def four_quotes_text_def strip_def is_space_def newline_def)

lemma lines_of_quotes:
  "lines_of quotes_text =
    [[51, 46, 32, 54645, 49900, 32, 47928, 51109, 58],
      [62, 32, 97],
      [52, 46, 32, 44048, 49457, 32, 48516, 49437, 58, 32, 51473, 47549],
      [62, 32, 98]]"
  by (simp add: lines_of_def quotes_text_def strip_def is_space_def newline_def)

lemma lines_of_title_and_sentiment:
  "lines_of title_and_sentiment_text =
    [[44048, 49457, 32, 48516, 49437, 58, 32, 50501, 51116],
      [54620, 44397, 50612, 32, 51228, 47785, 58, 32, 44048, 49457, 32, 48516, 49437, 58,
       32, 54840, 51116]]"
  by (simp add: lines_of_def title_and_sentiment_text_def strip_def is_space_def newline_def)

lemma lines_of_undecided_last:
  "lines_of undecided_last_text =
    [[44048, 49457, 32, 48516, 49437, 58, 32, 54840, 51116],
      [44048, 49457, 32, 48516, 49437, 58, 32, 44544, 50052]]"
  by (simp add: lines_of_def undecided_last_text_def strip_def is_space_def newline_def)


section \<open>The properties of the interpreter\<close>

text \<open>
  C2. Whatever the generator delivers, a response text of any shape or a failure, and
  whatever the fallback title, the sentiment of the result is one of the three labels:
  favourable, unfavourable or neutral.
\<close>

theorem sentiment_is_one_of_three:
  "sentiment (summarize_with_gemini outcome news_title) \<in> {positive, negative, neutral}"
proof (cases outcome)
  case (Inl msg)
  then show ?thesis by (simp add: summarize_with_gemini_def)
next
  case (Inr raw)
  have "resolve_sentiment raw (lines_of raw) (ps_sentiment (scan_lines raw (lines_of raw) news_title))
        \<in> {positive, negative, neutral}"
    by (rule resolve_range) (rule scan_sentiment_range)
  then show ?thesis using Inr by (simp only: result_sentiment)
qed


text \<open>
  C6. The raw response recorded in the result is the response text itself, unchanged,
  whatever the scan made of it.
\<close>

theorem raw_response_round_trip:
  "raw_response (summarize_with_gemini (Inr raw) news_title) = raw"
  by (simp add: summarize_with_gemini_def interpret_response_def Let_def)

text \<open>
  C3, as the program has it. A line mentions sentiment when it holds the Hangul stem of
  the sentiment label or the word "sentiment" in any letter case. When no line that
  mentions sentiment holds a label, the first two tiers leave the sentiment neutral and
  the last mention decides: the sentiment is favourable when the favourable label occurs
  in the response at an index beyond every occurrence of the unfavourable one,
  unfavourable in the mirrored case, and neutral otherwise. In particular it is neutral
  when neither label occurs in the response.
\<close>

theorem last_resort_resolution:
  assumes "\<forall>l \<in> set (lines_of raw). \<not> (mentions_sentiment l \<and> has_label l)"
  shows "sentiment (summarize_with_gemini (Inr raw) news_title) =
           (if \<exists>i. occurs_at positive raw i \<and> (\<forall>j. occurs_at negative raw j \<longrightarrow> j < i)
            then positive
            else if \<exists>j. occurs_at negative raw j \<and> (\<forall>i. occurs_at positive raw i \<longrightarrow> i < j)
            then negative
            else neutral) \<and>
         ((\<exists>i. occurs_at positive raw i \<and> (\<forall>j. occurs_at negative raw j \<longrightarrow> j < i)) \<longrightarrow>
            sentiment (summarize_with_gemini (Inr raw) news_title) = positive) \<and>
         (\<not> py_in positive raw \<and> \<not> py_in negative raw \<longrightarrow>
            sentiment (summarize_with_gemini (Inr raw) news_title) = neutral)"
proof -
  let ?s = "sentiment (summarize_with_gemini (Inr raw) news_title)"
  have prim: "ps_sentiment (scan_lines raw (lines_of raw) news_title) = neutral"
    by (rule scan_sentiment_without_label[OF assms])
  have nf: "find (\<lambda>l. mentions_sentiment l \<and> has_label l) (lines_of raw) = None"
    using assms by (auto simp: find_None_iff)
  have s: "?s = last_mention raw neutral"
    by (simp add: result_sentiment prim fallback_eq nf)
  have main: "?s =
           (if \<exists>i. occurs_at positive raw i \<and> (\<forall>j. occurs_at negative raw j \<longrightarrow> j < i)
            then positive
            else if \<exists>j. occurs_at negative raw j \<and> (\<forall>i. occurs_at positive raw i \<longrightarrow> i < j)
            then negative
            else neutral)"
    unfolding s by (rule last_mention_spec)
  have pos: "(\<exists>i. occurs_at positive raw i \<and> (\<forall>j. occurs_at negative raw j \<longrightarrow> j < i)) \<longrightarrow>
            ?s = positive"
  proof
    assume c: "\<exists>i. occurs_at positive raw i \<and> (\<forall>j. occurs_at negative raw j \<longrightarrow> j < i)"
    show "?s = positive" by (simp only: main c if_True)
  qed
  have neu: "\<not> py_in positive raw \<and> \<not> py_in negative raw \<longrightarrow> ?s = neutral"
  proof
    assume "\<not> py_in positive raw \<and> \<not> py_in negative raw"
    then have "\<forall>i. \<not> occurs_at positive raw i" "\<forall>j. \<not> occurs_at negative raw j"
      by (simp_all add: py_in_occurs)
    then show "?s = neutral" unfolding main by simp
  qed
  from main pos neu show ?thesis by (intro conjI)
qed

theorem last_resort_resolution_witness:
  "list_all (\<lambda>l. \<not> (mentions_sentiment l \<and> has_label l)) (lines_of mention_apart_text) \<and>
   mentions_sentiment (lines_of mention_apart_text ! 0) \<and>
   occurs_at positive mention_apart_text 15 \<and>
   rfind mention_apart_text negative = 12 \<and>
   sentiment (summarize_with_gemini (Inr mention_apart_text) scenario_title) = positive \<and>
   list_all (\<lambda>l. \<not> (mentions_sentiment l \<and> has_label l)) (lines_of late_positive_text) \<and>
   occurs_at positive late_positive_text 11 \<and>
   rfind late_positive_text negative = 0 \<and>
   sentiment (summarize_with_gemini (Inr late_positive_text) scenario_title) = positive \<and>
   list_all (\<lambda>l. \<not> (mentions_sentiment l \<and> has_label l)) (lines_of prose_text) \<and>
   \<not> py_in positive prose_text \<and> \<not> py_in negative prose_text \<and>
   sentiment (summarize_with_gemini (Inr prose_text) scenario_title) = neutral"
proof -
  note t = last_resort_resolution
  have a0: "list_all (\<lambda>l. \<not> (mentions_sentiment l \<and> has_label l))
              (lines_of mention_apart_text)"
    by (simp add: lines_of_mention_apart line_kind_defs literal_defs)
  have m0: "mentions_sentiment (lines_of mention_apart_text ! 0)"
    by (simp add: lines_of_mention_apart line_kind_defs literal_defs)
  have o0: "occurs_at positive mention_apart_text 15"
    by (simp add: occurs_at_def mention_apart_text_def positive_def)
  have r0: "rfind mention_apart_text negative = 12"
    by (simp add: rfind_def mention_apart_text_def negative_def)
  have "\<forall>j. occurs_at negative mention_apart_text j \<longrightarrow> j < 15"
  proof (intro allI impI)
    fix j assume "occurs_at negative mention_apart_text j"
    then have "int j \<le> rfind mention_apart_text negative"
      by (intro occurs_le_rfind) (simp_all add: negative_def)
    then show "j < 15" using r0 by simp
  qed
  then have c0: "\<exists>i. occurs_at positive mention_apart_text i \<and>
                  (\<forall>j. occurs_at negative mention_apart_text j \<longrightarrow> j < i)"
    using o0 by blast
  have s0: "sentiment (summarize_with_gemini (Inr mention_apart_text) scenario_title) = positive"
    using t[OF a0[unfolded list_all_iff], of scenario_title] c0 by blast
  have a1: "list_all (\<lambda>l. \<not> (mentions_sentiment l \<and> has_label l))
              (lines_of late_positive_text)"
    by (simp add: lines_of_late_positive line_kind_defs literal_defs)
  have o1: "occurs_at positive late_positive_text 11"
    by (simp add: occurs_at_def late_positive_text_def positive_def)
  have r1: "rfind late_positive_text negative = 0"
    by (simp add: rfind_def late_positive_text_def negative_def)
  have "\<forall>j. occurs_at negative late_positive_text j \<longrightarrow> j < 11"
  proof (intro allI impI)
    fix j assume "occurs_at negative late_positive_text j"
    then have "int j \<le> rfind late_positive_text negative"
      by (intro occurs_le_rfind) (simp_all add: negative_def)
    then show "j < 11" using r1 by simp
  qed
  then have c1: "\<exists>i. occurs_at positive late_positive_text i \<and>
                  (\<forall>j. occurs_at negative late_positive_text j \<longrightarrow> j < i)"
    using o1 by blast
  have s1: "sentiment (summarize_with_gemini (Inr late_positive_text) scenario_title) = positive"
    using t[OF a1[unfolded list_all_iff], of scenario_title] c1 by blast
  have a2: "list_all (\<lambda>l. \<not> (mentions_sentiment l \<and> has_label l)) (lines_of prose_text)"
    by (simp add: lines_of_prose line_kind_defs literal_defs)
  have n2: "\<not> py_in positive prose_text" "\<not> py_in negative prose_text"
    by (simp_all add: prose_text_def positive_def negative_def)
  have s2: "sentiment (summarize_with_gemini (Inr prose_text) scenario_title) = neutral"
    using t[OF a2[unfolded list_all_iff], of scenario_title] n2 by blast
  from a0 m0 o0 r0 s0 a1 o1 r1 s1 a2 n2 s2 show ?thesis by (intro conjI)
qed

text \<open>
  The claim as stated, for every response without a line that holds the sentiment label,
  fails: the second tier looks for the stem of the label alone, or for the word
  "sentiment", and takes the first such line that holds a label. In both samples no line
  holds the sentiment label, written as two words or as one, the favourable label is the
  one mentioned last, and the result is the unfavourable label of the first line.
\<close>

theorem last_resort_claim_counterexample:
  "length (lines_of stem_negative_text) = 2 \<and>
   list_all (\<lambda>l. \<not> py_in sentiment_marker l \<and> \<not> py_in sentiment_marker_joined l)
     (lines_of stem_negative_text) \<and>
   rfind stem_negative_text positive = 6 \<and>
   rfind stem_negative_text negative = 3 \<and>
   sentiment (summarize_with_gemini (Inr stem_negative_text) scenario_title) = negative \<and>
   length (lines_of latin_negative_text) = 2 \<and>
   list_all (\<lambda>l. \<not> py_in sentiment_marker l \<and> \<not> py_in sentiment_marker_joined l)
     (lines_of latin_negative_text) \<and>
   rfind latin_negative_text positive = 14 \<and>
   rfind latin_negative_text negative = 11 \<and>
   sentiment (summarize_with_gemini (Inr latin_negative_text) scenario_title) = negative \<and>
   negative \<noteq> positive"
proof -
  have n1: "length (lines_of stem_negative_text) = 2" by (simp add: lines_of_stem_negative)
  have m1: "list_all (\<lambda>l. \<not> py_in sentiment_marker l \<and> \<not> py_in sentiment_marker_joined l)
     (lines_of stem_negative_text)"
    by (simp add: lines_of_stem_negative sentiment_marker_def sentiment_marker_joined_def)
  have p1: "rfind stem_negative_text positive = 6"
    by (simp add: rfind_def stem_negative_text_def positive_def)
  have q1: "rfind stem_negative_text negative = 3"
    by (simp add: rfind_def stem_negative_text_def negative_def)
  have no1: "\<forall>l \<in> set (lines_of stem_negative_text). \<not> is_sentiment_line l"
    by (simp add: lines_of_stem_negative line_kind_defs literal_defs)
  have f1: "find (\<lambda>l. mentions_sentiment l \<and> has_label l) (lines_of stem_negative_text) =
              Some (lines_of stem_negative_text ! 0)"
    by (simp add: lines_of_stem_negative line_kind_defs literal_defs)
  have x1: "\<not> py_in positive (lines_of stem_negative_text ! 0)"
    by (simp add: lines_of_stem_negative positive_def)
  have s1: "sentiment (summarize_with_gemini (Inr stem_negative_text) scenario_title) = negative"
    unfolding result_sentiment scan_lines_sentiment_none[OF no1] fallback_eq f1
    using x1 by simp
  have n2: "length (lines_of latin_negative_text) = 2" by (simp add: lines_of_latin_negative)
  have m2: "list_all (\<lambda>l. \<not> py_in sentiment_marker l \<and> \<not> py_in sentiment_marker_joined l)
     (lines_of latin_negative_text)"
    by (simp add: lines_of_latin_negative sentiment_marker_def sentiment_marker_joined_def)
  have p2: "rfind latin_negative_text positive = 14"
    by (simp add: rfind_def latin_negative_text_def positive_def)
  have q2: "rfind latin_negative_text negative = 11"
    by (simp add: rfind_def latin_negative_text_def negative_def)
  have no2: "\<forall>l \<in> set (lines_of latin_negative_text). \<not> is_sentiment_line l"
    by (simp add: lines_of_latin_negative line_kind_defs literal_defs)
  have f2: "find (\<lambda>l. mentions_sentiment l \<and> has_label l) (lines_of latin_negative_text) =
              Some (lines_of latin_negative_text ! 0)"
    by (simp add: lines_of_latin_negative line_kind_defs literal_defs)
  have x2: "\<not> py_in positive (lines_of latin_negative_text ! 0)"
    by (simp add: lines_of_latin_negative positive_def)
  have s2: "sentiment (summarize_with_gemini (Inr latin_negative_text) scenario_title) = negative"
    unfolding result_sentiment scan_lines_sentiment_none[OF no2] fallback_eq f2
    using x2 by simp
  have d: "negative \<noteq> positive" using labels_distinct by simp
  from n1 m1 p1 q1 s1 n2 m2 p2 q2 s2 d show ?thesis by (intro conjI)
qed



text \<open>
  C4, as the program has it. The text the sentiment branch classifies is the remainder of
  the line after its last colon, stripped of surrounding white space, when the line has a
  colon, and the whole line when it has none: a line with a colon ends in a colon followed
  by \<open>after_last_colon\<close> of it, which holds no colon. The scan stores the
  classification of that text for every line that takes the sentiment branch.
\<close>

theorem classified_text_after_last_colon:
  "sentiment_text l = (if py_in colon l then strip (after_last_colon l) else l) \<and>
   (py_in colon l \<longrightarrow>
      (\<exists>pre. l = pre @ colon @ after_last_colon l) \<and> \<not> py_in colon (after_last_colon l)) \<and>
   (is_sentiment_line (lines ! i) \<longrightarrow>
      ps_sentiment (scan_line rt lines st i) = classify (sentiment_text (lines ! i)))"
proof (intro conjI impI)
  show "sentiment_text l = (if py_in colon l then strip (after_last_colon l) else l)"
    by (rule sentiment_text_eq)
  show "\<exists>pre. l = pre @ colon @ after_last_colon l" if "py_in colon l"
    using that by (rule after_last_colon_decomp)
  show "\<not> py_in colon (after_last_colon l)"
    using after_last_colon_free[of l] by (simp add: colon_def py_in_single)
  show "ps_sentiment (scan_line rt lines st i) = classify (sentiment_text (lines ! i))"
    if "is_sentiment_line (lines ! i)"
    using that by (rule scan_sentiment_set)
qed

theorem classified_text_after_last_colon_witness:
  "py_in colon two_colons_text \<and>
   after_last_colon two_colons_text = [32, 50501, 51116] \<and>
   sentiment_text two_colons_text = [50501, 51116] \<and>
   is_sentiment_line ([two_colons_text] ! 0) \<and>
   ps_sentiment (scan_line two_colons_text [two_colons_text]
     \<lparr>ps_title = scenario_title, ps_summary = [], ps_quotes = [], ps_sentiment = neutral\<rparr> 0)
     = negative \<and>
   \<not> py_in colon no_colon_text \<and>
   sentiment_text no_colon_text = no_colon_text"
proof -
  note t = classified_text_after_last_colon
  have c: "py_in colon two_colons_text"
    by (simp add: two_colons_text_def colon_def)
  have a: "after_last_colon two_colons_text = [32, 50501, 51116]"
    by (simp add: after_last_colon_def two_colons_text_def)
  have "sentiment_text two_colons_text = strip (after_last_colon two_colons_text)"
    using t[of two_colons_text "[two_colons_text]" 0] c by simp
  then have s: "sentiment_text two_colons_text = [50501, 51116]"
    by (simp add: a strip_def is_space_def)
  have k: "is_sentiment_line ([two_colons_text] ! 0)"
    by (simp add: two_colons_text_def line_kind_defs literal_defs)
  have "ps_sentiment (scan_line two_colons_text [two_colons_text]
     \<lparr>ps_title = scenario_title, ps_summary = [], ps_quotes = [], ps_sentiment = neutral\<rparr> 0)
     = classify (sentiment_text ([two_colons_text] ! 0))"
    using t[of two_colons_text "[two_colons_text]" 0] k by blast
  then have p: "ps_sentiment (scan_line two_colons_text [two_colons_text]
     \<lparr>ps_title = scenario_title, ps_summary = [], ps_quotes = [], ps_sentiment = neutral\<rparr> 0)
     = negative"
    by (simp add: s classify_def positive_def negative_def)
  have n: "\<not> py_in colon no_colon_text"
    by (simp add: no_colon_text_def colon_def)
  have w: "sentiment_text no_colon_text = no_colon_text"
    using t[of no_colon_text "[no_colon_text]" 0] n by simp
  from c a s k p n w show ?thesis by (intro conjI)
qed

text \<open>
  The claim as stated, with the first colon, fails: on a sentiment line with two colons,
  the favourable label after the first and the unfavourable one after the second, the
  remainder after the first colon holds the favourable label, while the program
  classifies the remainder after the last one and returns the unfavourable label.
\<close>

theorem classified_text_first_colon_counterexample:
  "lines_of two_colons_text = [two_colons_text] \<and>
   is_sentiment_line two_colons_text \<and>
   py_in colon two_colons_text \<and>
   after_first_colon two_colons_text = [32, 54840, 51116, 58, 32, 50501, 51116] \<and>
   classify (after_first_colon two_colons_text) = positive \<and>
   sentiment_text two_colons_text = [50501, 51116] \<and>
   classify (sentiment_text two_colons_text) = negative \<and>
   sentiment (summarize_with_gemini (Inr two_colons_text) scenario_title) = negative"
proof -
  have l: "lines_of two_colons_text = [two_colons_text]"
    unfolding lines_of_two_colons by (simp add: two_colons_text_def)
  have k: "is_sentiment_line two_colons_text"
    by (simp add: two_colons_text_def line_kind_defs literal_defs)
  have c: "py_in colon two_colons_text"
    by (simp add: two_colons_text_def colon_def)
  have f: "after_first_colon two_colons_text = [32, 54840, 51116, 58, 32, 50501, 51116]"
    by (simp add: after_first_colon_def two_colons_text_def)
  have cf: "classify (after_first_colon two_colons_text) = positive"
    by (simp add: f classify_def positive_def negative_def)
  have a: "after_last_colon two_colons_text = [32, 50501, 51116]"
    by (simp add: after_last_colon_def two_colons_text_def)
  have s: "sentiment_text two_colons_text = [50501, 51116]"
    using c by (simp add: sentiment_text_eq a strip_def is_space_def)
  have cs: "classify (sentiment_text two_colons_text) = negative"
    by (simp add: s classify_def positive_def negative_def)
  have ll: "last_line_with is_sentiment_line (lines_of two_colons_text) 0"
    using k by (simp add: l last_line_with_def)
  have ca: "classify (after_last_colon (lines_of two_colons_text ! 0)) = negative"
    by (simp add: l a classify_def positive_def negative_def)
  have r: "sentiment (summarize_with_gemini (Inr two_colons_text) scenario_title) = negative"
    using labels_distinct by (simp add: sentiment_by_last_line(2)[OF ll] ca)
  from l k c f cf s cs r show ?thesis by (intro conjI)
qed

text \<open>
  C1, as the program has it. A sentiment line is a line that takes the sentiment branch:
  it holds the sentiment label and none of the title, summary and key-sentences markers.
  When the text after the last colon of the last sentiment line of the response (the
  whole line when it has no colon) holds the favourable label, the sentiment is
  favourable; when it holds the unfavourable label and not the favourable one, the
  sentiment is unfavourable.
\<close>

theorem sentiment_from_last_sentiment_line:
  assumes "last_line_with is_sentiment_line (lines_of raw) i"
  shows "(py_in positive (after_last_colon (lines_of raw ! i)) \<longrightarrow>
            sentiment (summarize_with_gemini (Inr raw) news_title) = positive) \<and>
         (py_in negative (after_last_colon (lines_of raw ! i)) \<and>
          \<not> py_in positive (after_last_colon (lines_of raw ! i)) \<longrightarrow>
            sentiment (summarize_with_gemini (Inr raw) news_title) = negative)"
  using labels_distinct
  by (simp add: sentiment_by_last_line(2)[OF assms] classify_def)

theorem sentiment_from_last_sentiment_line_witness:
  "last_line_with is_sentiment_line (lines_of scenario_text) 1 \<and>
   py_in positive (after_last_colon (lines_of scenario_text ! 1)) \<and>
   sentiment (summarize_with_gemini (Inr scenario_text) scenario_title) = positive \<and>
   last_line_with is_sentiment_line (lines_of negative_text) 0 \<and>
   py_in negative (after_last_colon (lines_of negative_text ! 0)) \<and>
   \<not> py_in positive (after_last_colon (lines_of negative_text ! 0)) \<and>
   sentiment (summarize_with_gemini (Inr negative_text) scenario_title) = negative"
proof -
  note t = sentiment_from_last_sentiment_line
  have h1: "last_line_with is_sentiment_line (lines_of scenario_text) 1"
    by (simp add: last_line_with_def lines_of_scenario line_kind_defs literal_defs)
  have p1: "py_in positive (after_last_colon (lines_of scenario_text ! 1))"
    by (simp add: lines_of_scenario after_last_colon_def positive_def)
  have s1: "sentiment (summarize_with_gemini (Inr scenario_text) scenario_title) = positive"
    using t[OF h1, of scenario_title] p1 by blast
  have h2: "last_line_with is_sentiment_line (lines_of negative_text) 0"
    by (simp add: last_line_with_def lines_of_negative line_kind_defs literal_defs)
  have p2: "py_in negative (after_last_colon (lines_of negative_text ! 0))"
    by (simp add: lines_of_negative after_last_colon_def negative_def)
  have n2: "\<not> py_in positive (after_last_colon (lines_of negative_text ! 0))"
    by (simp add: lines_of_negative after_last_colon_def positive_def)
  have s2: "sentiment (summarize_with_gemini (Inr negative_text) scenario_title) = negative"
    using t[OF h2, of scenario_title] p2 n2 by blast
  from h1 p1 s1 h2 p2 n2 s2 show ?thesis by (intro conjI)
qed

text \<open>
  The claim as stated fails twice. A single sentiment line whose text after its one colon
  holds both labels is classified favourable, though that text holds the unfavourable
  label. And of two sentiment lines, the first favourable and the second unfavourable,
  the second one decides, though the response holds a sentiment line with the favourable
  label after its colon.
\<close>

theorem sentiment_line_claim_counterexample:
  "lines_of both_labels_text = [both_labels_text] \<and>
   is_sentiment_line both_labels_text \<and>
   after_first_colon both_labels_text = after_last_colon both_labels_text \<and>
   py_in negative (after_last_colon both_labels_text) \<and>
   sentiment (summarize_with_gemini (Inr both_labels_text) scenario_title) = positive \<and>
   positive \<noteq> negative \<and>
   length (lines_of two_verdicts_text) = 2 \<and>
   is_sentiment_line (lines_of two_verdicts_text ! 0) \<and>
   after_first_colon (lines_of two_verdicts_text ! 0) =
     after_last_colon (lines_of two_verdicts_text ! 0) \<and>
   py_in positive (after_last_colon (lines_of two_verdicts_text ! 0)) \<and>
   sentiment (summarize_with_gemini (Inr two_verdicts_text) scenario_title) = negative"
proof -
  have l: "lines_of both_labels_text = [both_labels_text]"
    unfolding lines_of_both_labels by (simp add: both_labels_text_def)
  have k: "is_sentiment_line both_labels_text"
    by (simp add: both_labels_text_def line_kind_defs literal_defs)
  have e: "after_first_colon both_labels_text = after_last_colon both_labels_text"
    by (simp add: both_labels_text_def after_first_colon_def after_last_colon_def)
  have n: "py_in negative (after_last_colon both_labels_text)"
    by (simp add: both_labels_text_def after_last_colon_def negative_def)
  have p: "py_in positive (after_last_colon both_labels_text)"
    by (simp add: both_labels_text_def after_last_colon_def positive_def)
  have ll: "last_line_with is_sentiment_line (lines_of both_labels_text) 0"
    using k by (simp add: l last_line_with_def)
  have r: "sentiment (summarize_with_gemini (Inr both_labels_text) scenario_title) = positive"
    using labels_distinct p by (simp add: sentiment_by_last_line(2)[OF ll] l classify_def)
  have d: "positive \<noteq> negative" by (rule labels_distinct)
  have l2: "length (lines_of two_verdicts_text) = 2"
    by (simp add: lines_of_two_verdicts)
  have k2: "is_sentiment_line (lines_of two_verdicts_text ! 0)"
    by (simp add: lines_of_two_verdicts line_kind_defs literal_defs)
  have e2: "after_first_colon (lines_of two_verdicts_text ! 0) =
            after_last_colon (lines_of two_verdicts_text ! 0)"
    by (simp add: lines_of_two_verdicts after_first_colon_def after_last_colon_def)
  have p2: "py_in positive (after_last_colon (lines_of two_verdicts_text ! 0))"
    by (simp add: lines_of_two_verdicts after_last_colon_def positive_def)
  have ll2: "last_line_with is_sentiment_line (lines_of two_verdicts_text) 1"
    by (simp add: last_line_with_def lines_of_two_verdicts line_kind_defs literal_defs)
  have c2: "classify (after_last_colon (lines_of two_verdicts_text ! 1)) = negative"
    by (simp add: lines_of_two_verdicts after_last_colon_def classify_def positive_def negative_def)
  have r2: "sentiment (summarize_with_gemini (Inr two_verdicts_text) scenario_title) = negative"
    unfolding sentiment_by_last_line(2)[OF ll2] c2 using labels_distinct by simp
  from l k e n r d l2 k2 e2 p2 r2 show ?thesis by (intro conjI)
qed

text \<open>
  C10, as the program has it. The scan handles the sentiment lines (the lines that take
  the sentiment branch) in order, each classification replacing the one before, so after
  the scan the classification is that of the last sentiment line, whatever the earlier
  ones said. When it names a label, that label is the sentiment of the result. Only when
  it is neutral do the later tiers run: the first line, in line order, that mentions
  sentiment and holds a label decides, and with no such line the last mention in the
  whole response.
\<close>

theorem last_sentiment_line_decides:
  assumes "last_line_with is_sentiment_line (lines_of raw) i"
  shows "ps_sentiment (scan_lines raw (lines_of raw) news_title) =
           classify (after_last_colon (lines_of raw ! i)) \<and>
         sentiment (summarize_with_gemini (Inr raw) news_title) =
           (if classify (after_last_colon (lines_of raw ! i)) \<noteq> neutral
            then classify (after_last_colon (lines_of raw ! i))
            else case find (\<lambda>l. mentions_sentiment l \<and> has_label l) (lines_of raw) of
                   Some l \<Rightarrow> if py_in positive l then positive else negative
                 | None \<Rightarrow> last_mention raw neutral)"
  using sentiment_by_last_line[OF assms] by (intro conjI)

theorem last_sentiment_line_decides_witness:
  "last_line_with is_sentiment_line (lines_of two_verdicts_text) 1 \<and>
   classify (after_last_colon (lines_of two_verdicts_text ! 0)) = positive \<and>
   classify (after_last_colon (lines_of two_verdicts_text ! 1)) = negative \<and>
   ps_sentiment (scan_lines two_verdicts_text (lines_of two_verdicts_text) scenario_title) =
     negative \<and>
   sentiment (summarize_with_gemini (Inr two_verdicts_text) scenario_title) = negative \<and>
   last_line_with is_sentiment_line (lines_of undecided_last_text) 1 \<and>
   classify (after_last_colon (lines_of undecided_last_text ! 1)) = neutral \<and>
   find (\<lambda>l. mentions_sentiment l \<and> has_label l) (lines_of undecided_last_text) =
     Some (lines_of undecided_last_text ! 0) \<and>
   sentiment (summarize_with_gemini (Inr undecided_last_text) scenario_title) = positive"
proof -
  note t = last_sentiment_line_decides
  have h1: "last_line_with is_sentiment_line (lines_of two_verdicts_text) 1"
    by (simp add: last_line_with_def lines_of_two_verdicts line_kind_defs literal_defs)
  have c0: "classify (after_last_colon (lines_of two_verdicts_text ! 0)) = positive"
    by (simp add: lines_of_two_verdicts after_last_colon_def classify_def positive_def negative_def)
  have c1: "classify (after_last_colon (lines_of two_verdicts_text ! 1)) = negative"
    by (simp add: lines_of_two_verdicts after_last_colon_def classify_def positive_def negative_def)
  have p1: "ps_sentiment (scan_lines two_verdicts_text (lines_of two_verdicts_text) scenario_title)
            = negative"
    using t[OF h1, of scenario_title] c1 by simp
  have s1: "sentiment (summarize_with_gemini (Inr two_verdicts_text) scenario_title) = negative"
    using t[OF h1, of scenario_title] c1 labels_distinct by simp
  have h2: "last_line_with is_sentiment_line (lines_of undecided_last_text) 1"
    by (simp add: last_line_with_def lines_of_undecided_last line_kind_defs literal_defs)
  have c2: "classify (after_last_colon (lines_of undecided_last_text ! 1)) = neutral"
    by (simp add: lines_of_undecided_last after_last_colon_def classify_def positive_def
        negative_def)
  have f2: "find (\<lambda>l. mentions_sentiment l \<and> has_label l) (lines_of undecided_last_text) =
              Some (lines_of undecided_last_text ! 0)"
    by (simp add: lines_of_undecided_last line_kind_defs literal_defs)
  have q2: "py_in positive (lines_of undecided_last_text ! 0)"
    by (simp add: lines_of_undecided_last positive_def)
  have s2: "sentiment (summarize_with_gemini (Inr undecided_last_text) scenario_title) = positive"
    using t[OF h2, of scenario_title] c2 f2 q2 by simp
  from h1 c0 c1 p1 s1 h2 c2 f2 s2 show ?thesis by (intro conjI)
qed

text \<open>
  The claim as stated fails on a line that holds the sentiment label together with the
  title marker: the scan takes it as a title line and never classifies it. In the sample
  the last line that holds the sentiment label says favourable after its colons, and the
  result is the unfavourable verdict of the line before.
\<close>

theorem last_marker_line_claim_counterexample:
  "length (lines_of title_and_sentiment_text) = 2 \<and>
   py_in sentiment_marker (lines_of title_and_sentiment_text ! 0) \<and>
   classify (after_last_colon (lines_of title_and_sentiment_text ! 0)) = negative \<and>
   py_in sentiment_marker (lines_of title_and_sentiment_text ! 1) \<and>
   classify (after_last_colon (lines_of title_and_sentiment_text ! 1)) = positive \<and>
   classify (after_first_colon (lines_of title_and_sentiment_text ! 1)) = positive \<and>
   py_in title_marker (lines_of title_and_sentiment_text ! 1) \<and>
   ps_sentiment (scan_lines title_and_sentiment_text (lines_of title_and_sentiment_text)
     scenario_title) = negative \<and>
   sentiment (summarize_with_gemini (Inr title_and_sentiment_text) scenario_title) = negative"
proof -
  note ls = lines_of_title_and_sentiment
  have n: "length (lines_of title_and_sentiment_text) = 2" by (simp add: ls)
  have m0: "py_in sentiment_marker (lines_of title_and_sentiment_text ! 0)"
    by (simp add: ls sentiment_marker_def)
  have c0: "classify (after_last_colon (lines_of title_and_sentiment_text ! 0)) = negative"
    by (simp add: ls after_last_colon_def classify_def positive_def negative_def)
  have m1: "py_in sentiment_marker (lines_of title_and_sentiment_text ! 1)"
    by (simp add: ls sentiment_marker_def)
  have c1: "classify (after_last_colon (lines_of title_and_sentiment_text ! 1)) = positive"
    by (simp add: ls after_last_colon_def classify_def positive_def negative_def)
  have f1: "classify (after_first_colon (lines_of title_and_sentiment_text ! 1)) = positive"
    by (simp add: ls after_first_colon_def classify_def positive_def negative_def)
  have t1: "py_in title_marker (lines_of title_and_sentiment_text ! 1)"
    by (simp add: ls title_marker_def)
  have ll: "last_line_with is_sentiment_line (lines_of title_and_sentiment_text) 0"
    by (simp add: last_line_with_def ls line_kind_defs literal_defs)
  have p: "ps_sentiment (scan_lines title_and_sentiment_text (lines_of title_and_sentiment_text)
     scenario_title) = negative"
    by (simp only: sentiment_by_last_line(1)[OF ll] c0)
  have r: "sentiment (summarize_with_gemini (Inr title_and_sentiment_text) scenario_title)
           = negative"
    using labels_distinct by (simp add: sentiment_by_last_line(2)[OF ll] c0)
  from n m0 c0 m1 c1 f1 t1 p r show ?thesis by (intro conjI)
qed

text \<open>
  C7, as the program has it. A summary line is a line that takes the summary branch: it
  holds the summary marker and not the title marker. The summary is built from the last
  summary line of the response: of the three lines that follow it (fewer at the end of
  the text), those that begin with a bullet or a dash once stripped of surrounding white
  space are joined, stripped, with newlines. When none of them does, and when the
  response has no summary line, the summary is the whole response text.
\<close>

theorem summary_from_bullet_window:
  "(last_line_with is_summary_line (lines_of raw) i \<longrightarrow>
      summary (summarize_with_gemini (Inr raw) news_title) =
        (if bullets_in (window_after (lines_of raw) i) = [] then raw
         else join_nl (bullets_in (window_after (lines_of raw) i)))) \<and>
   ((\<forall>l \<in> set (lines_of raw). \<not> is_summary_line l) \<longrightarrow>
      summary (summarize_with_gemini (Inr raw) news_title) = raw)"
  using summary_by_last_line[of raw i news_title] summary_without_line[of raw news_title]
  by blast

theorem summary_from_bullet_window_witness:
  "last_line_with is_summary_line (lines_of bullets_text) 0 \<and>
   bullets_in (window_after (lines_of bullets_text) 0) = [[8226, 32, 97], [45, 32, 98]] \<and>
   summary (summarize_with_gemini (Inr bullets_text) scenario_title) =
     [8226, 32, 97, 10, 45, 32, 98] \<and>
   last_line_with is_summary_line (lines_of no_bullets_text) 0 \<and>
   bullets_in (window_after (lines_of no_bullets_text) 0) = [] \<and>
   summary (summarize_with_gemini (Inr no_bullets_text) scenario_title) = no_bullets_text \<and>
   lines_of prose_text = [prose_text] \<and>
   \<not> is_summary_line prose_text \<and>
   summary (summarize_with_gemini (Inr prose_text) scenario_title) = prose_text"
proof -
  note t = summary_from_bullet_window
  have h1: "last_line_with is_summary_line (lines_of bullets_text) 0"
    by (simp add: last_line_with_def lines_of_bullets line_kind_defs literal_defs)
  have b1: "bullets_in (window_after (lines_of bullets_text) 0) =
              [[8226, 32, 97], [45, 32, 98]]"
    by (simp add: lines_of_bullets window_after_def bullets_in_def is_bullet_def startswith_def
        strip_def is_space_def bullet_def dash_def)
  have s1: "summary (summarize_with_gemini (Inr bullets_text) scenario_title) =
              [8226, 32, 97, 10, 45, 32, 98]"
    using t[of bullets_text 0 scenario_title] h1 by (simp add: b1)
  have h2: "last_line_with is_summary_line (lines_of no_bullets_text) 0"
    by (simp add: last_line_with_def lines_of_no_bullets line_kind_defs literal_defs)
  have b2: "bullets_in (window_after (lines_of no_bullets_text) 0) = []"
    by (simp add: lines_of_no_bullets window_after_def bullets_in_def is_bullet_def
        startswith_def strip_def is_space_def bullet_def dash_def)
  have s2: "summary (summarize_with_gemini (Inr no_bullets_text) scenario_title) =
              no_bullets_text"
    using t[of no_bullets_text 0 scenario_title] h2 by (simp add: b2)
  have l3: "lines_of prose_text = [prose_text]"
    unfolding lines_of_prose by (simp add: prose_text_def)
  have n3: "\<not> is_summary_line prose_text"
    by (simp add: prose_text_def line_kind_defs literal_defs)
  have s3: "summary (summarize_with_gemini (Inr prose_text) scenario_title) = prose_text"
    using t[of prose_text 0 scenario_title] l3 n3 by simp
  from h1 b1 s1 h2 b2 s2 l3 n3 s3 show ?thesis by (intro conjI)
qed

text \<open>
  The claim as stated fails on a line that holds the summary marker together with the
  title marker: the scan takes it as a title line, finds no summary line, and the summary
  is the whole response, though the line after the marker line is a bullet line. It also
  fails to the letter where a line of the window has surrounding white space: the lines
  are tested and joined after stripping, so an indented dash line is taken and a trailing
  blank is dropped.
\<close>

theorem summary_marker_claim_counterexample:
  "length (lines_of title_and_summary_text) = 2 \<and>
   py_in summary_marker (lines_of title_and_summary_text ! 0) \<and>
   py_in title_marker (lines_of title_and_summary_text ! 0) \<and>
   startswith (lines_of title_and_summary_text ! 1) bullet \<and>
   bullets_in (window_after (lines_of title_and_summary_text) 0) =
     [lines_of title_and_summary_text ! 1] \<and>
   summary (summarize_with_gemini (Inr title_and_summary_text) scenario_title) =
     title_and_summary_text \<and>
   title_and_summary_text \<noteq> join_nl [lines_of title_and_summary_text ! 1] \<and>
   is_summary_line (lines_of bullets_text ! 0) \<and>
   filter (\<lambda>l. startswith l bullet \<or> startswith l dash)
     (window_after (lines_of bullets_text) 0) = [[8226, 32, 97, 32]] \<and>
   summary (summarize_with_gemini (Inr bullets_text) scenario_title) =
     [8226, 32, 97, 10, 45, 32, 98]"
proof -
  note ls = lines_of_title_and_summary
  have n: "length (lines_of title_and_summary_text) = 2" by (simp add: ls)
  have m: "py_in summary_marker (lines_of title_and_summary_text ! 0)"
    by (simp add: ls summary_marker_def)
  have t: "py_in title_marker (lines_of title_and_summary_text ! 0)"
    by (simp add: ls title_marker_def)
  have b: "startswith (lines_of title_and_summary_text ! 1) bullet"
    by (simp add: ls startswith_def bullet_def)
  have w: "bullets_in (window_after (lines_of title_and_summary_text) 0) =
             [lines_of title_and_summary_text ! 1]"
    by (simp add: ls window_after_def bullets_in_def is_bullet_def startswith_def
        strip_def is_space_def bullet_def dash_def)
  have no: "\<forall>l \<in> set (lines_of title_and_summary_text). \<not> is_summary_line l"
    by (simp add: ls line_kind_defs literal_defs)
  have s: "summary (summarize_with_gemini (Inr title_and_summary_text) scenario_title) =
             title_and_summary_text"
    by (rule summary_without_line[OF no])
  have d: "title_and_summary_text \<noteq> join_nl [lines_of title_and_summary_text ! 1]"
    unfolding ls by (simp add: title_and_summary_text_def)
  have k2: "is_summary_line (lines_of bullets_text ! 0)"
    by (simp add: lines_of_bullets line_kind_defs literal_defs)
  have f2: "filter (\<lambda>l. startswith l bullet \<or> startswith l dash)
     (window_after (lines_of bullets_text) 0) = [[8226, 32, 97, 32]]"
    by (simp add: lines_of_bullets window_after_def startswith_def bullet_def dash_def)
  have ll2: "last_line_with is_summary_line (lines_of bullets_text) 0"
    by (simp add: last_line_with_def lines_of_bullets line_kind_defs literal_defs)
  have b2: "bullets_in (window_after (lines_of bullets_text) 0) =
              [[8226, 32, 97], [45, 32, 98]]"
    by (simp add: lines_of_bullets window_after_def bullets_in_def is_bullet_def startswith_def
        strip_def is_space_def bullet_def dash_def)
  have s2: "summary (summarize_with_gemini (Inr bullets_text) scenario_title) =
     [8226, 32, 97, 10, 45, 32, 98]"
    by (simp add: summary_by_last_line[OF ll2] b2)
  from n m t b w s d k2 f2 s2 show ?thesis by (intro conjI)
qed

text \<open>
  C8, as the program has it. A key-sentences line is a line that takes the quotes branch:
  it holds the key-sentences marker and neither the title nor the summary marker. The
  key quotes are built from the last such line of the response: the three lines that
  follow it (fewer at the end of the text) are visited in order, up to the first one
  that is no quote line and holds the sentiment label, and those that begin with \<open>></\<close>
  or a double quote once stripped are joined, stripped, with newlines. When none of the
  three lines is a quote line, and when the response has no key-sentences line, the key
  quotes are the empty text.
\<close>

theorem key_quotes_from_window:
  "(last_line_with is_quotes_line (lines_of raw) i \<longrightarrow>
      key_quotes (summarize_with_gemini (Inr raw) news_title) =
        Some (join_nl (quotes_in (window_after (lines_of raw) i)))) \<and>
   (last_line_with is_quotes_line (lines_of raw) i \<and>
    (\<forall>l \<in> set (window_after (lines_of raw) i). \<not> is_quote (strip l)) \<longrightarrow>
      key_quotes (summarize_with_gemini (Inr raw) news_title) = Some []) \<and>
   ((\<forall>l \<in> set (lines_of raw). \<not> is_quotes_line l) \<longrightarrow>
      key_quotes (summarize_with_gemini (Inr raw) news_title) = Some [])"
proof -
  have a: "last_line_with is_quotes_line (lines_of raw) i \<longrightarrow>
      key_quotes (summarize_with_gemini (Inr raw) news_title) =
        Some (join_nl (quotes_in (window_after (lines_of raw) i)))"
    using quotes_by_last_line[of raw i news_title] by blast
  have b: "last_line_with is_quotes_line (lines_of raw) i \<and>
    (\<forall>l \<in> set (window_after (lines_of raw) i). \<not> is_quote (strip l)) \<longrightarrow>
      key_quotes (summarize_with_gemini (Inr raw) news_title) = Some []"
  proof
    assume h: "last_line_with is_quotes_line (lines_of raw) i \<and>
      (\<forall>l \<in> set (window_after (lines_of raw) i). \<not> is_quote (strip l))"
    then have "quotes_in (window_after (lines_of raw) i) = []" by (simp add: quotes_in_none)
    then show "key_quotes (summarize_with_gemini (Inr raw) news_title) = Some []"
      using h quotes_by_last_line[of raw i news_title] by simp
  qed
  have c: "(\<forall>l \<in> set (lines_of raw). \<not> is_quotes_line l) \<longrightarrow>
      key_quotes (summarize_with_gemini (Inr raw) news_title) = Some []"
    using quotes_without_line[of raw news_title] by blast
  from a b c show ?thesis by (intro conjI)
qed

theorem key_quotes_from_window_witness:
  "last_line_with is_quotes_line (lines_of quotes_text) 0 \<and>
   quotes_in (window_after (lines_of quotes_text) 0) = [[62, 32, 97]] \<and>
   key_quotes (summarize_with_gemini (Inr quotes_text) scenario_title) = Some [62, 32, 97] \<and>
   last_line_with is_quotes_line (lines_of no_quotes_text) 0 \<and>
   list_all (\<lambda>l. \<not> is_quote (strip l)) (window_after (lines_of no_quotes_text) 0) \<and>
   key_quotes (summarize_with_gemini (Inr no_quotes_text) scenario_title) = Some [] \<and>
   lines_of prose_text = [prose_text] \<and>
   \<not> is_quotes_line prose_text \<and>
   key_quotes (summarize_with_gemini (Inr prose_text) scenario_title) = Some []"
proof -
  note t = key_quotes_from_window
  have h1: "last_line_with is_quotes_line (lines_of quotes_text) 0"
    by (simp add: last_line_with_def lines_of_quotes line_kind_defs literal_defs)
  have q1: "quotes_in (window_after (lines_of quotes_text) 0) = [[62, 32, 97]]"
    by (simp add: lines_of_quotes window_after_def quotes_in_def quote_stop_def is_quote_def
        startswith_def strip_def is_space_def gt_sign_def dquote_def sentiment_marker_def)
  have k1: "key_quotes (summarize_with_gemini (Inr quotes_text) scenario_title) =
              Some [62, 32, 97]"
    using t[of quotes_text 0 scenario_title] h1 by (simp add: q1)
  have h2: "last_line_with is_quotes_line (lines_of no_quotes_text) 0"
    by (simp add: last_line_with_def lines_of_no_quotes line_kind_defs literal_defs)
  have n2: "list_all (\<lambda>l. \<not> is_quote (strip l)) (window_after (lines_of no_quotes_text) 0)"
    by (simp add: lines_of_no_quotes window_after_def is_quote_def startswith_def strip_def
        is_space_def gt_sign_def dquote_def)
  have k2: "key_quotes (summarize_with_gemini (Inr no_quotes_text) scenario_title) = Some []"
    using t[of no_quotes_text 0 scenario_title] h2 n2[unfolded list_all_iff] by blast
  have l3: "lines_of prose_text = [prose_text]"
    unfolding lines_of_prose by (simp add: prose_text_def)
  have n3: "\<not> is_quotes_line prose_text"
    by (simp add: prose_text_def line_kind_defs literal_defs)
  have k3: "key_quotes (summarize_with_gemini (Inr prose_text) scenario_title) = Some []"
    using t[of prose_text 0 scenario_title] l3 n3 by simp
  from h1 q1 k1 h2 n2 k2 l3 n3 k3 show ?thesis by (intro conjI)
qed

text \<open>
  The claim as stated, which bounds the collection only by a line that holds the
  sentiment label, fails on a key-sentences line followed by four quote lines: none of
  them holds the sentiment label, and the key quotes are the first three only.
\<close>

theorem key_quotes_claim_counterexample:
  "length (lines_of four_quotes_text) = 5 \<and>
   is_quotes_line (lines_of four_quotes_text ! 0) \<and>
   list_all (\<lambda>l. startswith l gt_sign \<and> \<not> py_in sentiment_marker l)
     (drop 1 (lines_of four_quotes_text)) \<and>
   key_quotes (summarize_with_gemini (Inr four_quotes_text) scenario_title) =
     Some (join_nl (take 3 (drop 1 (lines_of four_quotes_text)))) \<and>
   join_nl (take 3 (drop 1 (lines_of four_quotes_text))) \<noteq>
     join_nl (drop 1 (lines_of four_quotes_text))"
proof -
  note ls = lines_of_four_quotes
  have n: "length (lines_of four_quotes_text) = 5" by (simp add: ls)
  have m: "is_quotes_line (lines_of four_quotes_text ! 0)"
    by (simp add: ls line_kind_defs literal_defs)
  have a: "list_all (\<lambda>l. startswith l gt_sign \<and> \<not> py_in sentiment_marker l)
     (drop 1 (lines_of four_quotes_text))"
    by (simp add: ls startswith_def gt_sign_def sentiment_marker_def)
  have ll: "last_line_with is_quotes_line (lines_of four_quotes_text) 0"
    by (simp add: last_line_with_def ls line_kind_defs literal_defs)
  have q: "quotes_in (window_after (lines_of four_quotes_text) 0) =
             take 3 (drop 1 (lines_of four_quotes_text))"
    by (simp add: ls window_after_def quotes_in_def quote_stop_def is_quote_def
        startswith_def strip_def is_space_def gt_sign_def dquote_def sentiment_marker_def)
  have k: "key_quotes (summarize_with_gemini (Inr four_quotes_text) scenario_title) =
     Some (join_nl (take 3 (drop 1 (lines_of four_quotes_text))))"
    by (simp only: quotes_by_last_line[OF ll] q)
  have d: "join_nl (take 3 (drop 1 (lines_of four_quotes_text))) \<noteq>
     join_nl (drop 1 (lines_of four_quotes_text))"
    by (simp add: ls)
  from n m a k d show ?thesis by (intro conjI)
qed

end
